theory Spec2Isabelle
  imports Complex_Main "HOL-Library.Word"
begin

unbundle bit_operations_syntax

section \<open>WonderBox: the mesh loader, the fingerprint hash and the sphere renderer\<close>

text \<open>
  The development follows \<^verbatim>\<open>main.c\<close> and \<^verbatim>\<open>hash.h\<close>.

  The mesh loader never computes with the floats it reads: \<^verbatim>\<open>fread\<close> copies their bytes,
  \<^verbatim>\<open>hash\<close> reinterprets them with \<^verbatim>\<open>bit_cast(uint32_t, _)\<close>, and the arrays store copies.
  There a \<^verbatim>\<open>float\<close> is therefore its 32-bit pattern, a \<open>32 word\<close>, and \<^verbatim>\<open>bit_cast\<close> is
  the identity. The renderer does compute with floats; its functions take the float type
  and its operations as a parameter (see the section on the renderer).
\<close>

subsection \<open>Data\<close>

type_synonym uint8_t = "8 word"
type_synonym uint32_t = "32 word"

text \<open>\<^verbatim>\<open>vec3_t\<close>, over the representation of a float.\<close>

record 'f vec3_t =
  x :: 'f
  y :: 'f
  z :: 'f

text \<open>
  \<^verbatim>\<open>struct vec3_uint32_hash_table_node_t\<close>. A pointer to a node is its index in the
  arena \<^verbatim>\<open>preallocated_nodes\<close>, and \<open>None\<close> is \<^verbatim>\<open>NULL\<close>. The fields carry the
  prefix \<open>node_\<close>, the bare names being taken.
\<close>

record vec3_uint32_hash_table_node_t =
  node_key :: "uint32_t vec3_t"
  node_value :: uint32_t
  node_next :: "nat option"

subsection \<open>The fingerprint hash (\<^verbatim>\<open>hash.h\<close>)\<close>

definition int_hash32 :: "uint32_t \<Rightarrow> uint32_t" where
  "int_hash32 w0 =
     (let w1 = w0 XOR drop_bit 17 w0;
          w2 = w1 * 0xed5ad4bb;
          w3 = w2 XOR drop_bit 11 w2;
          w4 = w3 * 0xac4c1b51;
          w5 = w4 XOR drop_bit 15 w4;
          w6 = w5 * 0x31848bab
      in w6 XOR drop_bit 14 w6)"

text \<open>The three arguments are the bit patterns of the three floats.\<close>

definition hash :: "uint32_t \<Rightarrow> uint32_t \<Rightarrow> uint32_t \<Rightarrow> uint32_t" where
  "hash fx fy fz =
     (let h0 = 0;
          h1 = int_hash32 (h0 XOR fx);
          h2 = int_hash32 (h1 XOR fy);
          h3 = int_hash32 (h2 XOR fz)
      in h3)"

subsection \<open>The mesh loader (\<^verbatim>\<open>main\<close>, up to the end of the triangle loop)\<close>

text \<open>
  The local variables of \<^verbatim>\<open>main\<close> that the triangle loop reads and writes. A
  \<^verbatim>\<open>malloc\<close>ed array is a list of its capacity, a cell being \<open>None\<close> until it is
  written. The \<^verbatim>\<open>size_t\<close> counters are natural numbers: they count cells of arrays of
  fewer than \<open>2 ^ 32\<close> cells. Allocation is taken to succeed (the source does not check
  it).
\<close>

record loader_state =
  unique_vertices :: "uint32_t vec3_t option list"
  num_unique_vertices :: nat
  preallocated_nodes :: "vec3_uint32_hash_table_node_t option list"
  new_node_index :: nat
  num_buckets :: nat
  buckets :: "nat option list"

text \<open>
  The ways the loader stops: the three \<^verbatim>\<open>return 1\<close> of the triangle loop and the one
  before it, and the two undefined behaviours that the C text makes possible (a remainder
  by zero, an access outside an array), which the model reports instead of hiding.
\<close>

datatype error =
    Failed_to_read_number_of_triangles
  | Failed_to_read_normal
  | Failed_to_read_vertices
  | Failed_to_read_attribute_byte_count
  | Remainder_by_zero
  | Out_of_bounds

text \<open>
  The body of the loop over \<^verbatim>\<open>triangle_vertex_index\<close> (lines 185 to 198). The
  remainder is taken in \<^verbatim>\<open>size_t\<close>, so on the numbers.
\<close>

definition process_vertex :: "loader_state \<Rightarrow> uint32_t vec3_t \<Rightarrow> error + loader_state" where
  "process_vertex st vertex =
     (let vertex_hash = hash (x vertex) (y vertex) (z vertex) in
      if num_buckets st = 0 then Inl Remainder_by_zero
      else
        let bucket_index = unat vertex_hash mod num_buckets st in
        if length (buckets st) \<le> bucket_index then Inl Out_of_bounds
        else if buckets st ! bucket_index = None then
          (let node = new_node_index st;
               new_unique_vertex_index = num_unique_vertices st
           in if length (preallocated_nodes st) \<le> node
                 \<or> length (unique_vertices st) \<le> new_unique_vertex_index
              then Inl Out_of_bounds
              else Inr (st\<lparr>
                buckets := (buckets st)[bucket_index := Some node],
                new_node_index := Suc (new_node_index st),
                preallocated_nodes := (preallocated_nodes st)[node := Some
                  \<lparr>node_key = vertex,
                   node_value = of_nat new_unique_vertex_index,
                   node_next = None\<rparr>],
                num_unique_vertices := Suc (num_unique_vertices st),
                unique_vertices :=
                  (unique_vertices st)[new_unique_vertex_index := Some vertex]\<rparr>))
        else Inr st)"

text \<open>The loop over \<^verbatim>\<open>triangle_vertex_index\<close>, on the vertices still to come.\<close>

fun process_vertices :: "loader_state \<Rightarrow> uint32_t vec3_t list \<Rightarrow> error + loader_state" where
  "process_vertices st [] = Inr st"
| "process_vertices st (vertex # rest) =
     (case process_vertex st vertex of
        Inl e \<Rightarrow> Inl e
      | Inr st' \<Rightarrow> process_vertices st' rest)"

text \<open>
  The file is the list of the bytes not yet read. \<^verbatim>\<open>fread(p, size, count, f)\<close> is used
  only as "all items or failure": \<open>fread_bytes n f\<close> gives the next \<open>n\<close> bytes and the
  rest, or \<open>None\<close> when fewer are left. Multi-byte values are little-endian.
\<close>

type_synonym byte = "8 word"

definition fread_bytes :: "nat \<Rightarrow> byte list \<Rightarrow> (byte list \<times> byte list) option" where
  "fread_bytes n f = (if n \<le> length f then Some (take n f, drop n f) else None)"

fun le_uint32 :: "byte list \<Rightarrow> uint32_t" where
  "le_uint32 [] = 0"
| "le_uint32 (b # bs) = ucast b OR push_bit 8 (le_uint32 bs)"

definition read_vec3 :: "byte list \<Rightarrow> uint32_t vec3_t" where
  "read_vec3 bs =
     \<lparr>x = le_uint32 (take 4 bs),
      y = le_uint32 (take 4 (drop 4 bs)),
      z = le_uint32 (take 4 (drop 8 bs))\<rparr>"

text \<open>One turn of the loop over \<^verbatim>\<open>triangle_index\<close> (lines 170 to 199).\<close>

definition parse_triangle ::
  "loader_state \<times> byte list \<Rightarrow> error + (loader_state \<times> byte list)" where
  "parse_triangle sf =
     (case fread_bytes 12 (snd sf) of
        None \<Rightarrow> Inl Failed_to_read_normal
      | Some (triangle_normal, f1) \<Rightarrow>
     (case fread_bytes 36 f1 of
        None \<Rightarrow> Inl Failed_to_read_vertices
      | Some (vs, f2) \<Rightarrow>
     (case fread_bytes 2 f2 of
        None \<Rightarrow> Inl Failed_to_read_attribute_byte_count
      | Some (attribute_byte_count, f3) \<Rightarrow>
          (let triangle_vertices =
                 [read_vec3 (take 12 vs), read_vec3 (take 12 (drop 12 vs)),
                  read_vec3 (take 12 (drop 24 vs))]
           in case process_vertices (fst sf) triangle_vertices of
                Inl e \<Rightarrow> Inl e
              | Inr st' \<Rightarrow> Inr (st', f3)))))"

text \<open>The loop over \<^verbatim>\<open>triangle_index\<close>, on the number of triangles still to read.\<close>

fun parse_triangles ::
  "nat \<Rightarrow> loader_state \<times> byte list \<Rightarrow> error + (loader_state \<times> byte list)" where
  "parse_triangles 0 sf = Inr sf"
| "parse_triangles (Suc n) sf =
     (case parse_triangle sf of
        Inl e \<Rightarrow> Inl e
      | Inr sf' \<Rightarrow> parse_triangles n sf')"

text \<open>
  Lines 154 to 167: the three allocations and the clearing of the buckets.
  \<^verbatim>\<open>3 * num_tris\<close> is a product of \<^verbatim>\<open>unsigned int\<close>, so it wraps at \<open>2 ^ 32\<close> before it
  is widened to \<^verbatim>\<open>size_t\<close>.
\<close>

definition init_state :: "uint32_t \<Rightarrow> loader_state" where
  "init_state num_tris =
     (let num_max_unique_vertices = unat (3 * num_tris) in
      \<lparr>unique_vertices = replicate num_max_unique_vertices None,
       num_unique_vertices = 0,
       preallocated_nodes = replicate num_max_unique_vertices None,
       new_node_index = 0,
       num_buckets = unat (3 * num_tris),
       buckets = replicate (unat (3 * num_tris)) None\<rparr>)"

text \<open>
  \<^verbatim>\<open>main\<close> from the open file to the end of the triangle loop (lines 144 to 200).
  \<^verbatim>\<open>fseek\<close> by 80 from the start succeeds on a regular file, also beyond its end; the
  read that follows fails then.
\<close>

definition main_load :: "byte list \<Rightarrow> error + loader_state" where
  "main_load stl_mesh_file =
     (case fread_bytes 4 (drop 80 stl_mesh_file) of
        None \<Rightarrow> Inl Failed_to_read_number_of_triangles
      | Some (bs, f) \<Rightarrow>
          (let num_tris = le_uint32 bs in
           case parse_triangles (unat num_tris) (init_state num_tris, f) of
             Inl e \<Rightarrow> Inl e
           | Inr sf \<Rightarrow> Inr (fst sf)))"

subsection \<open>Float arithmetic as a parameter\<close>

text \<open>
  The renderer computes with \<^verbatim>\<open>float\<close>. What \<^verbatim>\<open>+\<close>, \<^verbatim>\<open>*\<close>, \<^verbatim>\<open>sqrtf\<close> or \<^verbatim>\<open>powf\<close>
  return is fixed by the platform, not by the source, so the functions below take the
  float type \<open>'f\<close> and its operations as a parameter and hold for every choice of them.
  \<open>float_of_int\<close> is the conversion of an integer, which is how every literal of the
  source (\<^verbatim>\<open>2.0f\<close>, \<^verbatim>\<open>4\<close>, \<^verbatim>\<open>255\<close>, \<^verbatim>\<open>20.0f\<close>) and every cast \<^verbatim>\<open>(float) i\<close> enters;
  \<open>a > b\<close> is \<open>flt b a\<close>; \<open>to_uint8\<close> is the cast \<^verbatim>\<open>(uint8_t)\<close>. Each operator of the
  source is one application of its operation: a product and a sum are not fused.
\<close>

record 'f float_ops =
  fadd :: "'f \<Rightarrow> 'f \<Rightarrow> 'f"
  fsub :: "'f \<Rightarrow> 'f \<Rightarrow> 'f"
  fmul :: "'f \<Rightarrow> 'f \<Rightarrow> 'f"
  fdiv :: "'f \<Rightarrow> 'f \<Rightarrow> 'f"
  fneg :: "'f \<Rightarrow> 'f"
  flt :: "'f \<Rightarrow> 'f \<Rightarrow> bool"
  sqrtf :: "'f \<Rightarrow> 'f"
  powf :: "'f \<Rightarrow> 'f \<Rightarrow> 'f"
  float_of_int :: "int \<Rightarrow> 'f"
  to_uint8 :: "'f \<Rightarrow> uint8_t"

text \<open>
  Exact arithmetic on the reals: no rounding, no infinities and no NaN (a division by
  zero gives 0). It is the instance on which concrete scenes are evaluated. The cast to
  \<^verbatim>\<open>uint8_t\<close> truncates towards zero.
\<close>

definition exact_ops :: "real float_ops" where
  "exact_ops =
     \<lparr>fadd = (\<lambda>a b. a + b), fsub = (\<lambda>a b. a - b), fmul = (\<lambda>a b. a * b),
      fdiv = (\<lambda>a b. a / b), fneg = (\<lambda>a. - a), flt = (\<lambda>a b. a < b),
      sqrtf = sqrt, powf = (\<lambda>a b. a powr b), float_of_int = of_int,
      to_uint8 = (\<lambda>a. word_of_int (if 0 \<le> a then \<lfloor>a\<rfloor> else \<lceil>a\<rceil>))\<rparr>"

text \<open>
  What correctly rounded binary floating point guarantees on small integers: an
  operation whose operands are integers and whose exact result is an integer returns that
  integer. The side conditions leave out the results that IEEE 754 gives as the negative
  zero, which is another bit pattern than the converted integer 0.
\<close>

definition exact_on_integers :: "'f float_ops \<Rightarrow> bool" where
  "exact_on_integers ops \<longleftrightarrow>
     (\<forall>a b. \<bar>a\<bar> \<le> 1000 \<and> \<bar>b\<bar> \<le> 1000 \<longrightarrow>
        fadd ops (float_of_int ops a) (float_of_int ops b) = float_of_int ops (a + b)
      \<and> fsub ops (float_of_int ops a) (float_of_int ops b) = float_of_int ops (a - b)
      \<and> (a * b \<noteq> 0 \<or> (0 \<le> a \<and> 0 \<le> b) \<longrightarrow>
           fmul ops (float_of_int ops a) (float_of_int ops b) = float_of_int ops (a * b))
      \<and> (b \<noteq> 0 \<and> b dvd a \<and> (a \<noteq> 0 \<or> 0 < b) \<longrightarrow>
           fdiv ops (float_of_int ops a) (float_of_int ops b) = float_of_int ops (a div b))
      \<and> (a \<noteq> 0 \<longrightarrow> fneg ops (float_of_int ops a) = float_of_int ops (- a))
      \<and> sqrtf ops (float_of_int ops (a * a)) = float_of_int ops \<bar>a\<bar>
      \<and> (flt ops (float_of_int ops a) (float_of_int ops b) \<longleftrightarrow> a < b))"

subsection \<open>Vectors, rays and the sphere (\<^verbatim>\<open>main.c\<close>, lines 15 to 100)\<close>

record 'f ray_t =
  origin :: "'f vec3_t"
  direction :: "'f vec3_t"

record 'f sphere_t =
  center :: "'f vec3_t"
  radius :: 'f

record 'f lighting_t =
  color :: "'f vec3_t"
  specular :: "'f vec3_t"

text \<open>
  \<^verbatim>\<open>point_light_t\<close>; its fields \<^verbatim>\<open>position\<close>, \<^verbatim>\<open>color\<close> and \<^verbatim>\<open>power\<close> carry the prefix
  \<open>light_\<close>, to keep them apart from the fields of \<open>lighting_t\<close> and from the power of
  numbers.
\<close>

record 'f point_light_t =
  light_position :: "'f vec3_t"
  light_color :: "'f vec3_t"
  light_power :: 'f

definition vec3_length_squared :: "'f float_ops \<Rightarrow> 'f vec3_t \<Rightarrow> 'f" where
  "vec3_length_squared ops v =
     fadd ops (fadd ops (fmul ops (x v) (x v)) (fmul ops (y v) (y v))) (fmul ops (z v) (z v))"

definition vec3_length :: "'f float_ops \<Rightarrow> 'f vec3_t \<Rightarrow> 'f" where
  "vec3_length ops v = sqrtf ops (vec3_length_squared ops v)"

definition vec3_normalized :: "'f float_ops \<Rightarrow> 'f vec3_t \<Rightarrow> 'f vec3_t" where
  "vec3_normalized ops v =
     (let l = vec3_length ops v
      in \<lparr>x = fdiv ops (x v) l, y = fdiv ops (y v) l, z = fdiv ops (z v) l\<rparr>)"

definition vec3_scale :: "'f float_ops \<Rightarrow> 'f vec3_t \<Rightarrow> 'f \<Rightarrow> 'f vec3_t" where
  "vec3_scale ops v scale =
     \<lparr>x = fmul ops (x v) scale, y = fmul ops (y v) scale, z = fmul ops (z v) scale\<rparr>"

definition vec3_add :: "'f float_ops \<Rightarrow> 'f vec3_t \<Rightarrow> 'f vec3_t \<Rightarrow> 'f vec3_t" where
  "vec3_add ops a b =
     \<lparr>x = fadd ops (x a) (x b), y = fadd ops (y a) (y b), z = fadd ops (z a) (z b)\<rparr>"

definition vec3_sub :: "'f float_ops \<Rightarrow> 'f vec3_t \<Rightarrow> 'f vec3_t \<Rightarrow> 'f vec3_t" where
  "vec3_sub ops a b =
     \<lparr>x = fsub ops (x a) (x b), y = fsub ops (y a) (y b), z = fsub ops (z a) (z b)\<rparr>"

definition vec3_dot :: "'f float_ops \<Rightarrow> 'f vec3_t \<Rightarrow> 'f vec3_t \<Rightarrow> 'f" where
  "vec3_dot ops a b =
     fadd ops (fadd ops (fmul ops (x a) (x b)) (fmul ops (y a) (y b))) (fmul ops (z a) (z b))"

definition clampf :: "'f float_ops \<Rightarrow> 'f \<Rightarrow> 'f \<Rightarrow> 'f \<Rightarrow> 'f" where
  "clampf ops v lo hi = (if flt ops v lo then lo else if flt ops hi v then hi else v)"

text \<open>
  \<^verbatim>\<open>ray_sphere_intersection\<close> returns \<^verbatim>\<open>false\<close> (here \<open>None\<close>), or \<^verbatim>\<open>true\<close> with
  \<^verbatim>\<open>*t\<close> written (here \<open>Some t\<close>). The source writes the three dot products out.
\<close>

definition ray_sphere_intersection :: "'f float_ops \<Rightarrow> 'f ray_t \<Rightarrow> 'f sphere_t \<Rightarrow> 'f option" where
  "ray_sphere_intersection ops r s =
     (let oc = \<lparr>x = fsub ops (x (origin r)) (x (center s)),
                y = fsub ops (y (origin r)) (y (center s)),
                z = fsub ops (z (origin r)) (z (center s))\<rparr>;
          a = fadd ops (fadd ops (fmul ops (x (direction r)) (x (direction r)))
                                 (fmul ops (y (direction r)) (y (direction r))))
                       (fmul ops (z (direction r)) (z (direction r)));
          b = fmul ops (float_of_int ops 2)
                (fadd ops (fadd ops (fmul ops (x oc) (x (direction r)))
                                    (fmul ops (y oc) (y (direction r))))
                          (fmul ops (z oc) (z (direction r))));
          c = fsub ops
                (fadd ops (fadd ops (fmul ops (x oc) (x oc)) (fmul ops (y oc) (y oc)))
                          (fmul ops (z oc) (z oc)))
                (fmul ops (radius s) (radius s));
          discriminant =
            fsub ops (fmul ops b b) (fmul ops (fmul ops (float_of_int ops 4) a) c)
      in if flt ops discriminant (float_of_int ops 0) then None
         else Some (fdiv ops (fsub ops (fneg ops b) (sqrtf ops discriminant))
                             (fmul ops (float_of_int ops 2) a)))"

text \<open>The result is \<open>(t, normal, position)\<close>, the three values written on a hit.\<close>

definition ray_sphere_intersection_with_normal_and_position ::
  "'f float_ops \<Rightarrow> 'f ray_t \<Rightarrow> 'f sphere_t \<Rightarrow> ('f \<times> 'f vec3_t \<times> 'f vec3_t) option" where
  "ray_sphere_intersection_with_normal_and_position ops r s =
     (case ray_sphere_intersection ops r s of
        Some t \<Rightarrow>
          (let position = vec3_add ops (origin r) (vec3_scale ops (direction r) t);
               normal = vec3_scale ops (vec3_sub ops position (center s))
                          (fdiv ops (float_of_int ops 1) (radius s))
           in Some (t, normal, position))
      | None \<Rightarrow> None)"

subsection \<open>Shading (lines 102 to 129)\<close>

definition blinn_phong_shading ::
  "'f float_ops \<Rightarrow> 'f point_light_t \<Rightarrow> 'f vec3_t \<Rightarrow> 'f vec3_t \<Rightarrow> 'f vec3_t \<Rightarrow> 'f
     \<Rightarrow> 'f lighting_t" where
  "blinn_phong_shading ops pl surface_position surface_normal view_direction
       specular_hardness =
     (if flt ops (light_power pl) (float_of_int ops 0) then
        \<lparr>color = \<lparr>x = float_of_int ops 0, y = float_of_int ops 0, z = float_of_int ops 0\<rparr>,
         specular = \<lparr>x = float_of_int ops 0, y = float_of_int ops 0, z = float_of_int ops 0\<rparr>\<rparr>
      else
        let light_direction0 = vec3_sub ops (light_position pl) surface_position;
            distance_squared = vec3_length_squared ops light_direction0;
            distance = sqrtf ops distance_squared;
            light_direction =
              vec3_scale ops light_direction0 (fdiv ops (float_of_int ops 1) distance);
            NdotL = vec3_dot ops surface_normal light_direction;
            intensity = clampf ops NdotL (float_of_int ops 0) (float_of_int ops 1);
            out_color =
              vec3_scale ops (light_color pl)
                (fdiv ops (fmul ops intensity (light_power pl)) distance_squared);
            half_vector =
              vec3_normalized ops (vec3_add ops light_direction view_direction);
            NdotH = vec3_dot ops surface_normal half_vector;
            specular_intensity =
              powf ops (clampf ops NdotH (float_of_int ops 0) (float_of_int ops 1))
                specular_hardness;
            out_specular =
              vec3_scale ops (light_color pl)
                (fdiv ops (fmul ops specular_intensity (light_power pl)) distance_squared)
        in \<lparr>color = out_color, specular = out_specular\<rparr>)"

subsection \<open>The render loop (\<^verbatim>\<open>main\<close>, lines 204 to 241)\<close>

definition light1 :: "'f float_ops \<Rightarrow> 'f point_light_t" where
  "light1 ops =
     \<lparr>light_position = \<lparr>x = fneg ops (float_of_int ops 1), y = fneg ops (float_of_int ops 1),
                         z = float_of_int ops 0\<rparr>,
      light_color = \<lparr>x = float_of_int ops 1, y = float_of_int ops 1, z = float_of_int ops 1\<rparr>,
      light_power = float_of_int ops 1\<rparr>"

text \<open>
  The camera ray of pixel \<open>(i, j)\<close> and the sphere (lines 216 to 225), with
  \<^verbatim>\<open>width = 640\<close> and \<^verbatim>\<open>height = 480\<close>.
\<close>

definition pixel_ray :: "'f float_ops \<Rightarrow> int \<Rightarrow> int \<Rightarrow> 'f ray_t" where
  "pixel_ray ops i j =
     (let width = 640; height = 480;
          px0 = fdiv ops (float_of_int ops i) (float_of_int ops width);
          py0 = fdiv ops (float_of_int ops j) (float_of_int ops height);
          px1 = fsub ops (fmul ops (float_of_int ops 2) px0) (float_of_int ops 1);
          py1 = fsub ops (fmul ops (float_of_int ops 2) py0) (float_of_int ops 1);
          px2 = fmul ops px1 (fdiv ops (float_of_int ops width) (float_of_int ops height))
      in \<lparr>origin = \<lparr>x = float_of_int ops 0, y = float_of_int ops 0, z = float_of_int ops 0\<rparr>,
          direction =
            vec3_normalized ops \<lparr>x = px2, y = py1, z = fneg ops (float_of_int ops 1)\<rparr>\<rparr>)"

definition sphere :: "'f float_ops \<Rightarrow> 'f sphere_t" where
  "sphere ops =
     \<lparr>center = \<lparr>x = float_of_int ops 0, y = float_of_int ops 0, z = float_of_int ops (- 2)\<rparr>,
      radius = float_of_int ops 1\<rparr>"

text \<open>
  The body of the two pixel loops (lines 216 to 238): the three bytes handed to
  \<^verbatim>\<open>nano_gui_draw_pixel\<close> for pixel \<open>(i, j)\<close>.
\<close>

definition main_pixel :: "'f float_ops \<Rightarrow> int \<Rightarrow> int \<Rightarrow> uint8_t \<times> uint8_t \<times> uint8_t" where
  "main_pixel ops i j =
     (let ray = pixel_ray ops i j in
      case ray_sphere_intersection_with_normal_and_position ops ray (sphere ops) of
        Some (depth, normal, position) \<Rightarrow>
          (let lighting =
                 blinn_phong_shading ops (light1 ops) position normal (direction ray)
                   (float_of_int ops 20);
               r = to_uint8 ops (clampf ops (fmul ops (x (color lighting)) (float_of_int ops 255))
                     (float_of_int ops 0) (float_of_int ops 255));
               g = to_uint8 ops (clampf ops (fmul ops (y (color lighting)) (float_of_int ops 255))
                     (float_of_int ops 0) (float_of_int ops 255));
               b = to_uint8 ops (clampf ops (fmul ops (z (color lighting)) (float_of_int ops 255))
                     (float_of_int ops 0) (float_of_int ops 255))
           in (r, g, b))
      | None \<Rightarrow> (0, 0, 0))"

text \<open>
  The pixel as the specification words it: the diffuse and the specular colour are
  added, each channel is scaled by 255 and clamped to \<open>[0, 255]\<close>.
\<close>

definition spec_pixel :: "'f float_ops \<Rightarrow> int \<Rightarrow> int \<Rightarrow> uint8_t \<times> uint8_t \<times> uint8_t" where
  "spec_pixel ops i j =
     (let ray = pixel_ray ops i j in
      case ray_sphere_intersection_with_normal_and_position ops ray (sphere ops) of
        Some (depth, normal, position) \<Rightarrow>
          (let lighting =
                 blinn_phong_shading ops (light1 ops) position normal (direction ray)
                   (float_of_int ops 20);
               combined = vec3_add ops (color lighting) (specular lighting);
               r = to_uint8 ops (clampf ops (fmul ops (x combined) (float_of_int ops 255))
                     (float_of_int ops 0) (float_of_int ops 255));
               g = to_uint8 ops (clampf ops (fmul ops (y combined) (float_of_int ops 255))
                     (float_of_int ops 0) (float_of_int ops 255));
               b = to_uint8 ops (clampf ops (fmul ops (z combined) (float_of_int ops 255))
                     (float_of_int ops 0) (float_of_int ops 255))
           in (r, g, b))
      | None \<Rightarrow> (0, 0, 0))"

subsection \<open>Predicates on the state of the loader\<close>

text \<open>
  What holds of a node: its value is the index of a unique vertex, that vertex is the
  node's key, bit for bit, and the node has no successor.
\<close>

definition node_ok :: "loader_state \<Rightarrow> vec3_uint32_hash_table_node_t \<Rightarrow> bool" where
  "node_ok st node \<longleftrightarrow>
     unat (node_value node) < num_unique_vertices st
     \<and> unat (node_value node) < length (unique_vertices st)
     \<and> unique_vertices st ! unat (node_value node) = Some (node_key node)
     \<and> node_next node = None"

definition table_invariant :: "loader_state \<Rightarrow> bool" where
  "table_invariant st \<longleftrightarrow>
     (\<forall>b < length (buckets st). \<forall>p. buckets st ! b = Some p \<longrightarrow>
        p < new_node_index st)
     \<and> (\<forall>p < new_node_index st.
          p < length (preallocated_nodes st)
          \<and> (\<exists>node. preallocated_nodes st ! p = Some node \<and> node_ok st node))
     \<and> new_node_index st = num_unique_vertices st"

definition occupied :: "nat option list \<Rightarrow> nat" where
  "occupied bs = length (filter (\<lambda>b. b \<noteq> None) bs)"

definition loader_inv :: "loader_state \<Rightarrow> bool" where
  "loader_inv st \<longleftrightarrow>
     length (buckets st) = num_buckets st
     \<and> length (unique_vertices st) = num_buckets st
     \<and> length (preallocated_nodes st) = num_buckets st
     \<and> num_buckets st < 2 ^ 32
     \<and> new_node_index st = num_unique_vertices st
     \<and> num_unique_vertices st = occupied (buckets st)
     \<and> (\<forall>b < num_buckets st. \<forall>p. buckets st ! b = Some p \<longrightarrow> p < new_node_index st)
     \<and> (\<forall>p < new_node_index st. \<exists>k.
          preallocated_nodes st ! p
            = Some \<lparr>node_key = k, node_value = of_nat p, node_next = None\<rparr>
          \<and> unique_vertices st ! p = Some k)"

text \<open>
  The 36 bytes of the three vertices of two triangles: \<open>(0,0,0)\<close>, \<open>(1,0,0)\<close>,
  \<open>(0,1,0)\<close>, and \<open>(0,0,0)\<close>, \<open>(0,1,0)\<close>, \<open>(0,0,1)\<close>. The float \<open>1.0\<close> is the pattern
  \<open>0x3f800000\<close>, in the file the bytes \<open>00 00 80 3f\<close>.
\<close>

definition minimal_mesh_vertices :: "byte list" where
  "minimal_mesh_vertices =
     [0, 0, 0, 0,  0, 0, 0, 0,  0, 0, 0, 0,
      0, 0, 0x80, 0x3f,  0, 0, 0, 0,  0, 0, 0, 0,
      0, 0, 0, 0,  0, 0, 0x80, 0x3f,  0, 0, 0, 0]"

definition colliding_mesh_vertices :: "byte list" where
  "colliding_mesh_vertices =
     [0, 0, 0, 0,  0, 0, 0, 0,  0, 0, 0, 0,
      0, 0, 0, 0,  0, 0, 0x80, 0x3f,  0, 0, 0, 0,
      0, 0, 0, 0,  0, 0, 0, 0,  0, 0, 0x80, 0x3f]"


text \<open>
  The smallest file with the first triangle: 80 header bytes, the count 1, a normal, the
  three vertices and the attribute byte count, all bytes but the vertices' being 0.
\<close>

definition minimal_mesh :: "byte list" where
  "minimal_mesh =
     replicate 80 0 @ [1, 0, 0, 0] @ replicate 12 0 @ minimal_mesh_vertices @ [0, 0]"

text \<open>
  The vertex occurrences of a file in file order: the three vertices of each of its
  records of 50 bytes, as the triangle loop reads them when no read fails.
\<close>

fun triangle_stream :: "nat \<Rightarrow> byte list \<Rightarrow> uint32_t vec3_t list" where
  "triangle_stream 0 f = []"
| "triangle_stream (Suc n) f =
     (let vs = take 36 (drop 12 f)
      in [read_vec3 (take 12 vs), read_vec3 (take 12 (drop 12 vs)),
          read_vec3 (take 12 (drop 24 vs))])
     @ triangle_stream n (drop 50 f)"

definition mesh_vertices :: "byte list \<Rightarrow> uint32_t vec3_t list" where
  "mesh_vertices mesh =
     triangle_stream (unat (le_uint32 (take 4 (drop 80 mesh)))) (drop 84 mesh)"

text \<open>
  A file of one triangle in which a vertex occurs twice: \<open>(0,1,0)\<close>, \<open>(0,0,1)\<close>,
  \<open>(0,0,1)\<close>.
\<close>

definition repeated_mesh_vertices :: "byte list" where
  "repeated_mesh_vertices =
     [0, 0, 0, 0,  0, 0, 0x80, 0x3f,  0, 0, 0, 0,
      0, 0, 0, 0,  0, 0, 0, 0,  0, 0, 0x80, 0x3f,
      0, 0, 0, 0,  0, 0, 0, 0,  0, 0, 0x80, 0x3f]"

definition repeated_vertex_mesh :: "byte list" where
  "repeated_vertex_mesh =
     replicate 80 0 @ [1, 0, 0, 0] @ replicate 12 0 @ repeated_mesh_vertices @ [0, 0]"

section \<open>Properties\<close>

subsection \<open>The hash is a bijection in each argument\<close>

text \<open>
  Each of the seven steps of \<open>int_hash32\<close> can be undone: a product with an odd
  constant by the product with its inverse modulo \<open>2 ^ 32\<close>, and \<open>w XOR drop_bit k w\<close>
  by repeating the shift until it leaves the word.
\<close>

lemma xorshift_17_inverse:
  fixes w :: "32 word"
  assumes "v = w XOR drop_bit 17 w"
  shows "v XOR drop_bit 17 v = w"
  unfolding assms by (rule bit_word_eqI) (auto simp add: bit_simps)

lemma xorshift_11_inverse:
  fixes w :: "32 word"
  assumes "v = w XOR drop_bit 11 w"
  shows "v XOR drop_bit 11 v XOR drop_bit 22 v = w"
  unfolding assms by (rule bit_word_eqI) (auto simp add: bit_simps)

lemma xorshift_15_inverse:
  fixes w :: "32 word"
  assumes "v = w XOR drop_bit 15 w"
  shows "v XOR drop_bit 15 v XOR drop_bit 30 v = w"
  unfolding assms by (rule bit_word_eqI) (auto simp add: bit_simps)

lemma xorshift_14_inverse:
  fixes w :: "32 word"
  assumes "v = w XOR drop_bit 14 w"
  shows "v XOR drop_bit 14 v XOR drop_bit 28 v = w"
  unfolding assms by (rule bit_word_eqI) (auto simp add: bit_simps)

lemma xorshift_17_inj:
  fixes a b :: "32 word"
  assumes "a XOR drop_bit 17 a = b XOR drop_bit 17 b"
  shows "a = b"
  using xorshift_17_inverse [OF refl, of a] xorshift_17_inverse [OF refl, of b] assms by simp

lemma xorshift_11_inj:
  fixes a b :: "32 word"
  assumes "a XOR drop_bit 11 a = b XOR drop_bit 11 b"
  shows "a = b"
  using xorshift_11_inverse [OF refl, of a] xorshift_11_inverse [OF refl, of b] assms by simp

lemma xorshift_15_inj:
  fixes a b :: "32 word"
  assumes "a XOR drop_bit 15 a = b XOR drop_bit 15 b"
  shows "a = b"
  using xorshift_15_inverse [OF refl, of a] xorshift_15_inverse [OF refl, of b] assms by simp

lemma xorshift_14_inj:
  fixes a b :: "32 word"
  assumes "a XOR drop_bit 14 a = b XOR drop_bit 14 b"
  shows "a = b"
  using xorshift_14_inverse [OF refl, of a] xorshift_14_inverse [OF refl, of b] assms by simp

lemma mult_odd_inj:
  fixes a b c d :: "32 word"
  assumes inv: "c * d = 1" and eq: "a * c = b * c"
  shows "a = b"
proof -
  have "a * (c * d) = b * (c * d)"
    using eq by (simp only: mult.assoc [symmetric])
  then show ?thesis by (simp only: inv mult_1_right)
qed

lemma int_hash32_inj:
  assumes h: "int_hash32 a = int_hash32 b"
  shows "a = b"
proof -
  have i1: "(0xed5ad4bb :: 32 word) * 0x79a85073 = 1" by simp
  have i2: "(0xac4c1b51 :: 32 word) * 0x469e0db1 = 1" by simp
  have i3: "(0x31848bab :: 32 word) * 0x32b21703 = 1" by simp
  let ?a1 = "a XOR drop_bit 17 a" and ?b1 = "b XOR drop_bit 17 b"
  let ?a2 = "?a1 * 0xed5ad4bb" and ?b2 = "?b1 * 0xed5ad4bb"
  let ?a3 = "?a2 XOR drop_bit 11 ?a2" and ?b3 = "?b2 XOR drop_bit 11 ?b2"
  let ?a4 = "?a3 * 0xac4c1b51" and ?b4 = "?b3 * 0xac4c1b51"
  let ?a5 = "?a4 XOR drop_bit 15 ?a4" and ?b5 = "?b4 XOR drop_bit 15 ?b4"
  let ?a6 = "?a5 * 0x31848bab" and ?b6 = "?b5 * 0x31848bab"
  from h have "?a6 XOR drop_bit 14 ?a6 = ?b6 XOR drop_bit 14 ?b6"
    by (simp only: int_hash32_def Let_def)
  then have "?a6 = ?b6" by (rule xorshift_14_inj)
  then have "?a5 = ?b5" by (rule mult_odd_inj [OF i3])
  then have "?a4 = ?b4" by (rule xorshift_15_inj)
  then have "?a3 = ?b3" by (rule mult_odd_inj [OF i2])
  then have "?a2 = ?b2" by (rule xorshift_11_inj)
  then have "?a1 = ?b1" by (rule mult_odd_inj [OF i1])
  then show "a = b" by (rule xorshift_17_inj)
qed

lemma xor_left_inj:
  fixes h a b :: "32 word"
  assumes "h XOR a = h XOR b"
  shows "a = b"
proof -
  have "h XOR (h XOR a) = h XOR (h XOR b)"
    using assms by simp
  then show ?thesis
    by (simp only: xor.assoc [symmetric] xor_self_eq xor.left_neutral)
qed

lemma xor_right_inj:
  fixes h a b :: "32 word"
  assumes "a XOR h = b XOR h"
  shows "a = b"
  using assms xor_left_inj [of h a b] by (simp add: xor.commute)

lemma hash_inj_x: "hash a fy fz = hash b fy fz \<Longrightarrow> a = b"
  unfolding hash_def Let_def
  by (drule int_hash32_inj, drule xor_right_inj, drule int_hash32_inj, drule xor_right_inj,
      drule int_hash32_inj, erule xor_left_inj)

lemma hash_inj_y: "hash fx a fz = hash fx b fz \<Longrightarrow> a = b"
  unfolding hash_def Let_def
  by (drule int_hash32_inj, drule xor_right_inj, drule int_hash32_inj, erule xor_left_inj)

lemma hash_inj_z: "hash fx fy a = hash fx fy b \<Longrightarrow> a = b"
  unfolding hash_def Let_def
  by (drule int_hash32_inj, erule xor_left_inj)

lemma flip_bit_neq:
  fixes w :: "32 word"
  assumes n: "n < 32"
  shows "flip_bit n w \<noteq> w"
proof
  assume e: "flip_bit n w = w"
  have "bit (flip_bit n w) n \<longleftrightarrow> \<not> bit w n"
    using n by (simp add: bit_flip_bit_iff)
  with e show False by simp
qed

text \<open>
  Claim C9. The hash is a function of the three bit patterns alone, so equal patterns
  give equal values; and flipping any one of the 32 bits of any one component, the other
  two components unchanged, changes the value.
\<close>

theorem hash_deterministic_and_bit_sensitive:
  assumes "n < 32"
  shows "(fx = fx' \<and> fy = fy' \<and> fz = fz' \<longrightarrow> hash fx fy fz = hash fx' fy' fz')
    \<and> hash (flip_bit n fx) fy fz \<noteq> hash fx fy fz
    \<and> hash fx (flip_bit n fy) fz \<noteq> hash fx fy fz
    \<and> hash fx fy (flip_bit n fz) \<noteq> hash fx fy fz"
  using flip_bit_neq [OF assms] hash_inj_x hash_inj_y hash_inj_z by blast

theorem hash_deterministic_and_bit_sensitive_witness:
  "(5::nat) < 32
    \<and> hash (flip_bit 5 0x3f800000) 0 0 \<noteq> hash 0x3f800000 0 0
    \<and> hash 0x3f800000 (flip_bit 5 0) 0 \<noteq> hash 0x3f800000 0 0
    \<and> hash 0x3f800000 0 (flip_bit 5 0) \<noteq> hash 0x3f800000 0 0"
  using hash_deterministic_and_bit_sensitive [of 5 "0x3f800000" "0x3f800000" 0 0 0 0] by simp


subsection \<open>The invariant of the loader\<close>

lemma occupied_le: "occupied bs \<le> length bs"
  by (simp add: occupied_def)

lemma occupied_less: "i < length bs \<Longrightarrow> bs ! i = None \<Longrightarrow> occupied bs < length bs"
proof -
  assume i: "i < length bs" and n: "bs ! i = None"
  from i have "bs ! i \<in> set bs" by (rule nth_mem)
  with n have "\<exists>b \<in> set bs. \<not> (b \<noteq> None)" by auto
  then show ?thesis
    unfolding occupied_def using length_filter_less [of _ bs "\<lambda>b. b \<noteq> None"] by blast
qed

lemma occupied_update:
  "i < length bs \<Longrightarrow> bs ! i = None \<Longrightarrow> occupied (bs[i := Some p]) = Suc (occupied bs)"
proof (induction bs arbitrary: i)
  case Nil
  then show ?case by simp
next
  case (Cons b bs)
  show ?case
  proof (cases i)
    case 0
    with Cons.prems show ?thesis by (simp add: occupied_def)
  next
    case (Suc j)
    with Cons.prems have "occupied (bs[j := Some p]) = Suc (occupied bs)"
      using Cons.IH [of j] by simp
    with Suc show ?thesis by (simp add: occupied_def)
  qed
qed

lemma occupied_replicate: "occupied (replicate n None) = 0"
  by (simp add: occupied_def)

lemma loader_inv_init: "loader_inv (init_state num_tris)"
proof -
  have "unat (3 * num_tris) < 2 ^ 32"
    using unsigned_less [of "3 * num_tris"] by simp
  then show ?thesis
    by (simp add: loader_inv_def init_state_def occupied_replicate Let_def)
qed

lemma process_vertex_cases:
  assumes "process_vertex st v = Inr st'"
  obtains (dup) "st' = st" "num_buckets st \<noteq> 0"
      "buckets st ! (unat (hash (x v) (y v) (z v)) mod num_buckets st) \<noteq> None"
    | (new) "num_buckets st \<noteq> 0"
      "unat (hash (x v) (y v) (z v)) mod num_buckets st < length (buckets st)"
      "buckets st ! (unat (hash (x v) (y v) (z v)) mod num_buckets st) = None"
      "new_node_index st < length (preallocated_nodes st)"
      "num_unique_vertices st < length (unique_vertices st)"
      "st' = st\<lparr>
         buckets := (buckets st)[unat (hash (x v) (y v) (z v)) mod num_buckets st
                       := Some (new_node_index st)],
         new_node_index := Suc (new_node_index st),
         preallocated_nodes := (preallocated_nodes st)[new_node_index st := Some
           \<lparr>node_key = v, node_value = of_nat (num_unique_vertices st), node_next = None\<rparr>],
         num_unique_vertices := Suc (num_unique_vertices st),
         unique_vertices := (unique_vertices st)[num_unique_vertices st := Some v]\<rparr>"
  using assms unfolding process_vertex_def Let_def
  by (auto split: if_splits)

lemma loader_inv_step:
  assumes inv: "loader_inv st" and step: "process_vertex st v = Inr st'"
  shows "loader_inv st'"
  using step
proof (cases rule: process_vertex_cases)
  case dup
  with inv show ?thesis by simp
next
  case new
  let ?b = "unat (hash (x v) (y v) (z v)) mod num_buckets st"
  let ?n = "new_node_index st"
  from inv have len: "length (buckets st) = num_buckets st"
    "length (unique_vertices st) = num_buckets st"
    "length (preallocated_nodes st) = num_buckets st"
    and nb: "num_buckets st < 2 ^ 32"
    and nn: "new_node_index st = num_unique_vertices st"
    and occ: "num_unique_vertices st = occupied (buckets st)"
    and ptr: "\<And>b p. b < num_buckets st \<Longrightarrow> buckets st ! b = Some p \<Longrightarrow> p < new_node_index st"
    and nodes: "\<And>p. p < new_node_index st \<Longrightarrow> \<exists>k.
          preallocated_nodes st ! p
            = Some \<lparr>node_key = k, node_value = of_nat p, node_next = None\<rparr>
          \<and> unique_vertices st ! p = Some k"
    unfolding loader_inv_def by blast+
  have occ': "occupied ((buckets st)[?b := Some ?n]) = Suc (occupied (buckets st))"
    using new(2,3) by (rule occupied_update)
  have ptr': "p < Suc ?n" if "b < num_buckets st" "((buckets st)[?b := Some ?n]) ! b = Some p" for b p
  proof (cases "b = ?b")
    case True
    with that len show ?thesis by simp
  next
    case False
    with that have "buckets st ! b = Some p" by simp
    with that(1) have "p < ?n" by (rule ptr)
    then show ?thesis by simp
  qed
  have nodes': "\<exists>k. (preallocated_nodes st)[?n := Some
           \<lparr>node_key = v, node_value = of_nat (num_unique_vertices st), node_next = None\<rparr>] ! p
            = Some \<lparr>node_key = k, node_value = of_nat p, node_next = None\<rparr>
          \<and> (unique_vertices st)[num_unique_vertices st := Some v] ! p = Some k"
    if "p < Suc ?n" for p
  proof (cases "p = ?n")
    case True
    with new(4,5) nn show ?thesis by simp
  next
    case False
    with that have "p < ?n" by simp
    from nodes [OF this] False nn show ?thesis by simp
  qed
  show ?thesis
    unfolding loader_inv_def new(6)
    using len nb nn occ occ' ptr' nodes' by simp
qed

lemma process_vertex_defined:
  assumes inv: "loader_inv st" and nz: "num_buckets st \<noteq> 0"
  shows "\<exists>st'. process_vertex st v = Inr st'"
proof -
  let ?b = "unat (hash (x v) (y v) (z v)) mod num_buckets st"
  from inv have len: "length (buckets st) = num_buckets st"
    "length (unique_vertices st) = num_buckets st"
    "length (preallocated_nodes st) = num_buckets st"
    and nn: "new_node_index st = num_unique_vertices st"
    and occ: "num_unique_vertices st = occupied (buckets st)"
    unfolding loader_inv_def by blast+
  from nz have b: "?b < length (buckets st)" using len by simp
  show ?thesis
  proof (cases "buckets st ! ?b = None")
    case True
    with b have "occupied (buckets st) < length (buckets st)" by (rule occupied_less)
    with len nn occ True b nz show ?thesis
      by (simp add: process_vertex_def Let_def not_le)
  next
    case False
    with b nz show ?thesis by (simp add: process_vertex_def Let_def not_le)
  qed
qed

lemma loader_inv_process_vertices:
  "loader_inv st \<Longrightarrow> process_vertices st vs = Inr st' \<Longrightarrow> loader_inv st'"
proof (induction vs arbitrary: st)
  case Nil
  then show ?case by simp
next
  case (Cons v vs)
  from Cons.prems(2) obtain st1 where s1: "process_vertex st v = Inr st1"
    and s2: "process_vertices st1 vs = Inr st'"
    by (auto split: sum.splits)
  from Cons.prems(1) s1 have "loader_inv st1" by (rule loader_inv_step)
  then show ?case using s2 by (rule Cons.IH)
qed

lemma loader_inv_table_invariant:
  assumes "loader_inv st"
  shows "table_invariant st"
proof -
  from assms have len: "length (buckets st) = num_buckets st"
    "length (unique_vertices st) = num_buckets st"
    "length (preallocated_nodes st) = num_buckets st"
    and nb: "num_buckets st < 2 ^ 32"
    and nn: "new_node_index st = num_unique_vertices st"
    and occ: "num_unique_vertices st = occupied (buckets st)"
    and ptr: "\<And>b p. b < num_buckets st \<Longrightarrow> buckets st ! b = Some p \<Longrightarrow> p < new_node_index st"
    and nodes: "\<And>p. p < new_node_index st \<Longrightarrow> \<exists>k.
          preallocated_nodes st ! p
            = Some \<lparr>node_key = k, node_value = of_nat p, node_next = None\<rparr>
          \<and> unique_vertices st ! p = Some k"
    unfolding loader_inv_def by blast+
  have cap: "num_unique_vertices st \<le> num_buckets st"
    using occ occupied_le [of "buckets st"] len by simp
  have "p < length (preallocated_nodes st)
          \<and> (\<exists>node. preallocated_nodes st ! p = Some node \<and> node_ok st node)"
    if p: "p < new_node_index st" for p
  proof -
    from nodes [OF p] obtain k where k: "preallocated_nodes st ! p
            = Some \<lparr>node_key = k, node_value = of_nat p, node_next = None\<rparr>"
      "unique_vertices st ! p = Some k" by blast
    from p nn cap nb have "p < 2 ^ 32" by simp
    then have "unat (of_nat p :: 32 word) = p"
      by (simp add: unat_of_nat)
    with k p nn cap len show ?thesis by (simp add: node_ok_def)
  qed
  with ptr len nn show ?thesis unfolding table_invariant_def by simp
qed

subsection \<open>Every state the loader reaches\<close>

lemma process_vertex_num_buckets:
  "process_vertex st v = Inr st' \<Longrightarrow> num_buckets st' = num_buckets st"
  by (erule process_vertex_cases) simp_all

lemma process_vertex_count:
  "process_vertex st v = Inr st' \<Longrightarrow>
     num_unique_vertices st' = num_unique_vertices st
     \<or> num_unique_vertices st' = Suc (num_unique_vertices st)"
  by (erule process_vertex_cases) simp_all

lemma process_vertices_count:
  "process_vertices st vs = Inr st' \<Longrightarrow> num_unique_vertices st \<le> num_unique_vertices st'"
proof (induction vs arbitrary: st)
  case Nil
  then show ?case by simp
next
  case (Cons v vs)
  from Cons.prems obtain st1 where s1: "process_vertex st v = Inr st1"
    and s2: "process_vertices st1 vs = Inr st'"
    by (auto split: sum.splits)
  from process_vertex_count [OF s1] Cons.IH [OF s2] show ?case by auto
qed

lemma process_vertices_num_buckets:
  "process_vertices st vs = Inr st' \<Longrightarrow> num_buckets st' = num_buckets st"
proof (induction vs arbitrary: st)
  case Nil
  then show ?case by simp
next
  case (Cons v vs)
  from Cons.prems obtain st1 where s1: "process_vertex st v = Inr st1"
    and s2: "process_vertices st1 vs = Inr st'"
    by (auto split: sum.splits)
  from process_vertex_num_buckets [OF s1] Cons.IH [OF s2] show ?case by simp
qed

text \<open>From a state with buckets, no run of the loop meets undefined behaviour.\<close>

lemma process_vertices_defined:
  "loader_inv st \<Longrightarrow> num_buckets st \<noteq> 0 \<Longrightarrow> \<exists>st'. process_vertices st vs = Inr st'"
proof (induction vs arbitrary: st)
  case Nil
  then show ?case by simp
next
  case (Cons v vs)
  from process_vertex_defined [OF Cons.prems] obtain st1 where
    s1: "process_vertex st v = Inr st1" by blast
  from Cons.prems(1) s1 have "loader_inv st1" by (rule loader_inv_step)
  moreover from s1 Cons.prems(2) have "num_buckets st1 \<noteq> 0"
    by (simp add: process_vertex_num_buckets)
  ultimately obtain st' where "process_vertices st1 vs = Inr st'"
    using Cons.IH by blast
  with s1 show ?case by simp
qed

lemma process_vertices_append:
  "process_vertices st (vs @ ws) =
     (case process_vertices st vs of Inl e \<Rightarrow> Inl e | Inr st' \<Rightarrow> process_vertices st' ws)"
  by (induction vs arbitrary: st) (auto split: sum.splits)

lemma parse_triangle_vertices:
  assumes "parse_triangle (st, f) = Inr (st', f')"
  shows "\<exists>vs. length vs = 3 \<and> process_vertices st vs = Inr st'"
proof -
  from assms obtain a b c where "process_vertices st [a, b, c] = Inr st'"
    unfolding parse_triangle_def Let_def fst_conv snd_conv
    by (auto split: option.splits sum.splits prod.splits simp del: process_vertices.simps)
  then have "length [a, b, c] = 3 \<and> process_vertices st [a, b, c] = Inr st'"
    by simp
  then show ?thesis by blast
qed

lemma parse_triangles_vertices:
  "parse_triangles n (st, f) = Inr (st', f') \<Longrightarrow>
     \<exists>vs. length vs = 3 * n \<and> process_vertices st vs = Inr st'"
proof (induction n arbitrary: st f)
  case 0
  then show ?case by simp
next
  case (Suc n)
  from Suc.prems obtain st1 f1 where t1: "parse_triangle (st, f) = Inr (st1, f1)"
    and t2: "parse_triangles n (st1, f1) = Inr (st', f')"
    by (auto split: sum.splits)
  from parse_triangle_vertices [OF t1] obtain vs where
    vs: "length vs = 3" "process_vertices st vs = Inr st1" by blast
  from Suc.IH [OF t2] obtain ws where
    ws: "length ws = 3 * n" "process_vertices st1 ws = Inr st'" by blast
  from vs ws have "length (vs @ ws) = 3 * Suc n \<and> process_vertices st (vs @ ws) = Inr st'"
    by (simp add: process_vertices_append)
  then show ?case by blast
qed

text \<open>
  The loader only ever runs \<open>process_vertex\<close>: a successful load is a run over the
  vertices of the file, from the initial state for the triangle count that stands in the
  four bytes after the header.
\<close>

lemma main_load_vertices:
  assumes "main_load mesh = Inr st"
  shows "\<exists>vs. length vs = 3 * unat (le_uint32 (take 4 (drop 80 mesh)))
           \<and> process_vertices (init_state (le_uint32 (take 4 (drop 80 mesh)))) vs = Inr st"
proof -
  let ?n = "le_uint32 (take 4 (drop 80 mesh))"
  from assms obtain f' sf where
    "parse_triangles (unat ?n) (init_state ?n, f') = Inr sf" and "fst sf = st"
    unfolding main_load_def fread_bytes_def Let_def
    by (auto split: if_splits sum.splits)
  then have "parse_triangles (unat ?n) (init_state ?n, f') = Inr (st, snd sf)"
    by (cases sf) simp
  from parse_triangles_vertices [OF this] show ?thesis .
qed

lemma loader_inv_reached:
  "process_vertices (init_state num_tris) vs = Inr st \<Longrightarrow> loader_inv st"
  using loader_inv_init by (rule loader_inv_process_vertices)

lemma unique_count_le_buckets:
  assumes "process_vertices (init_state num_tris) vs = Inr st"
  shows "num_unique_vertices st \<le> unat (3 * num_tris)"
proof -
  from assms have inv: "loader_inv st" by (rule loader_inv_reached)
  from assms have "num_buckets st = num_buckets (init_state num_tris)"
    by (rule process_vertices_num_buckets)
  then have nb: "num_buckets st = unat (3 * num_tris)"
    by (simp add: init_state_def Let_def)
  from inv have "num_unique_vertices st = occupied (buckets st)"
    and "length (buckets st) = num_buckets st"
    unfolding loader_inv_def by blast+
  with occupied_le [of "buckets st"] nb show ?thesis by simp
qed

lemma unat_times_3_le: "unat (3 * w :: 32 word) \<le> 3 * unat w"
proof -
  have "unat (3 * w) = (3 * unat w) mod 2 ^ 32"
    by (simp add: unat_word_ariths)
  then show ?thesis by simp
qed

text \<open>
  Claim C4. At every point of the parse (after any number of processed vertices) and at
  its end, the count of unique vertices is at most three times the triangle count of the
  file; and it never decreases, neither from one vertex to the next nor from one triangle
  to the next.
\<close>

theorem unique_count_bounded_and_monotone:
  "(process_vertices (init_state num_tris) vs = Inr st \<longrightarrow>
      num_unique_vertices st \<le> 3 * unat num_tris)
   \<and> (main_load mesh = Inr st \<longrightarrow>
      num_unique_vertices st \<le> 3 * unat (le_uint32 (take 4 (drop 80 mesh))))
   \<and> (process_vertex s v = Inr s' \<longrightarrow>
      num_unique_vertices s \<le> num_unique_vertices s')
   \<and> (parse_triangle (s, f) = Inr (s', f') \<longrightarrow>
      num_unique_vertices s \<le> num_unique_vertices s')"
proof (intro conjI impI)
  assume "process_vertices (init_state num_tris) vs = Inr st"
  from unique_count_le_buckets [OF this] unat_times_3_le [of num_tris]
  show "num_unique_vertices st \<le> 3 * unat num_tris" by simp
next
  assume "main_load mesh = Inr st"
  from main_load_vertices [OF this] obtain ws where
    "process_vertices (init_state (le_uint32 (take 4 (drop 80 mesh)))) ws = Inr st" by blast
  from unique_count_le_buckets [OF this] unat_times_3_le [of "le_uint32 (take 4 (drop 80 mesh))"]
  show "num_unique_vertices st \<le> 3 * unat (le_uint32 (take 4 (drop 80 mesh)))" by simp
next
  assume "process_vertex s v = Inr s'"
  from process_vertex_count [OF this]
  show "num_unique_vertices s \<le> num_unique_vertices s'" by auto
next
  assume "parse_triangle (s, f) = Inr (s', f')"
  from parse_triangle_vertices [OF this] process_vertices_count
  show "num_unique_vertices s \<le> num_unique_vertices s'" by blast
qed

text \<open>
  Claim C10. At every point of the parse and at its end: every bucket points to an
  allocated node; every allocated node holds a value below the count of unique vertices,
  the vertex stored at that index is the node's key bit for bit, and the node's next
  pointer is null, so that no chain is longer than one node; and as many nodes are
  allocated as there are unique vertices.
\<close>

theorem table_invariant_throughout:
  "(process_vertices (init_state num_tris) vs = Inr st \<longrightarrow> table_invariant st)
   \<and> (main_load mesh = Inr st' \<longrightarrow> table_invariant st')"
proof (intro conjI impI)
  assume "process_vertices (init_state num_tris) vs = Inr st"
  then have "loader_inv st" by (rule loader_inv_reached)
  then show "table_invariant st" by (rule loader_inv_table_invariant)
next
  assume "main_load mesh = Inr st'"
  from main_load_vertices [OF this] obtain ws where
    "process_vertices (init_state (le_uint32 (take 4 (drop 80 mesh)))) ws = Inr st'" by blast
  then have "loader_inv st'" by (rule loader_inv_reached)
  then show "table_invariant st'" by (rule loader_inv_table_invariant)
qed

subsection \<open>The triangle stream of a file\<close>

lemma parse_triangle_stream:
  assumes "parse_triangle (st, f) = Inr (st', f')"
  shows "f' = drop 50 f \<and> process_vertices st (triangle_stream (Suc 0) f) = Inr st'"
  using assms
  unfolding parse_triangle_def fread_bytes_def Let_def fst_conv snd_conv
  by (auto split: option.splits sum.splits prod.splits if_splits
        simp del: process_vertices.simps simp add: add.commute)

lemma parse_triangles_stream:
  "parse_triangles n (st, f) = Inr (st', f') \<Longrightarrow>
     process_vertices st (triangle_stream n f) = Inr st'"
proof (induction n arbitrary: st f)
  case 0
  then show ?case by simp
next
  case (Suc n)
  from Suc.prems obtain st1 f1 where t1: "parse_triangle (st, f) = Inr (st1, f1)"
    and t2: "parse_triangles n (st1, f1) = Inr (st', f')"
    by (auto split: sum.splits)
  from parse_triangle_stream [OF t1] have f1: "f1 = drop 50 f"
    and v: "process_vertices st (triangle_stream (Suc 0) f) = Inr st1" by simp_all
  from Suc.IH [OF t2] have "process_vertices st1 (triangle_stream n (drop 50 f)) = Inr st'"
    by (simp only: f1)
  with v have "process_vertices st (triangle_stream (Suc 0) f @ triangle_stream n (drop 50 f))
      = Inr st'"
    by (simp only: process_vertices_append sum.case)
  then show ?case by (simp add: Let_def)
qed

lemma main_load_stream:
  assumes "main_load mesh = Inr st"
  shows "process_vertices (init_state (le_uint32 (take 4 (drop 80 mesh)))) (mesh_vertices mesh)
           = Inr st"
proof -
  let ?n = "le_uint32 (take 4 (drop 80 mesh))"
  from assms obtain sf where
    "parse_triangles (unat ?n) (init_state ?n, drop 4 (drop 80 mesh)) = Inr sf" and "fst sf = st"
    unfolding main_load_def fread_bytes_def Let_def
    by (auto split: if_splits sum.splits)
  then have "parse_triangles (unat ?n) (init_state ?n, drop 84 mesh) = Inr (st, snd sf)"
    by (cases sf) simp
  from parse_triangles_stream [OF this] show ?thesis
    by (simp only: mesh_vertices_def)
qed

subsection \<open>The loader has defined behaviour on every file\<close>

lemma three_times_nonzero:
  fixes w :: "32 word"
  assumes "w \<noteq> 0"
  shows "unat (3 * w) \<noteq> 0"
proof
  assume "unat (3 * w) = 0"
  then have "w * 3 = 0 * 3" by (simp add: unat_eq_zero mult.commute)
  moreover have "(3 :: 32 word) * 0xAAAAAAAB = 1" by simp
  ultimately have "w = 0" by (rule mult_odd_inj [rotated])
  with assms show False by simp
qed

lemma parse_triangle_succeeds:
  assumes inv: "loader_inv st" and nz: "num_buckets st \<noteq> 0" and len: "50 \<le> length f"
  shows "\<exists>st'. parse_triangle (st, f) = Inr (st', drop 50 f)
           \<and> loader_inv st' \<and> num_buckets st' = num_buckets st"
proof -
  let ?vs = "take 36 (drop 12 f)"
  let ?tv = "[read_vec3 (take 12 ?vs), read_vec3 (take 12 (drop 12 ?vs)),
              read_vec3 (take 12 (drop 24 ?vs))]"
  from process_vertices_defined [OF inv nz] obtain st' where
    p: "process_vertices st ?tv = Inr st'" by blast
  from inv p have "loader_inv st'" by (rule loader_inv_process_vertices)
  moreover from p have "num_buckets st' = num_buckets st" by (rule process_vertices_num_buckets)
  moreover have "12 \<le> length f" "36 \<le> length f - 12" "2 \<le> length f - 48"
    using len by simp_all
  with p have "parse_triangle (st, f) = Inr (st', drop 50 f)"
    unfolding parse_triangle_def fread_bytes_def Let_def fst_conv snd_conv
    by (simp del: process_vertices.simps add: add.commute)
  ultimately show ?thesis by blast
qed

lemma parse_triangles_succeeds:
  "loader_inv st \<Longrightarrow> (n \<noteq> 0 \<longrightarrow> num_buckets st \<noteq> 0) \<Longrightarrow> 50 * n \<le> length f
     \<Longrightarrow> \<exists>st' f'. parse_triangles n (st, f) = Inr (st', f')"
proof (induction n arbitrary: st f)
  case 0
  then show ?case by simp
next
  case (Suc n)
  from Suc.prems have nz: "num_buckets st \<noteq> 0" and len: "50 \<le> length f" by simp_all
  from parse_triangle_succeeds [OF Suc.prems(1) nz len] obtain st1 where
    t: "parse_triangle (st, f) = Inr (st1, drop 50 f)" and i1: "loader_inv st1"
    and n1: "num_buckets st1 = num_buckets st" by blast
  from Suc.prems(3) have "50 * n \<le> length (drop 50 f)" by simp
  with i1 n1 nz obtain st' f' where "parse_triangles n (st1, drop 50 f) = Inr (st', f')"
    using Suc.IH [of st1 "drop 50 f"] by auto
  with t show ?case by simp
qed

text \<open>A file that is long enough for its triangle count loads without error.\<close>

lemma main_load_succeeds:
  assumes "84 + 50 * unat (le_uint32 (take 4 (drop 80 mesh))) \<le> length mesh"
  shows "\<exists>st. main_load mesh = Inr st"
proof -
  let ?n = "le_uint32 (take 4 (drop 80 mesh))"
  have nz: "unat ?n \<noteq> 0 \<longrightarrow> num_buckets (init_state ?n) \<noteq> 0"
    using three_times_nonzero [of ?n] by (auto simp add: init_state_def Let_def unat_eq_zero)
  from assms have "50 * unat ?n \<le> length (drop 84 mesh)" by simp
  from parse_triangles_succeeds [OF loader_inv_init nz this] obtain st' f' where
    "parse_triangles (unat ?n) (init_state ?n, drop 84 mesh) = Inr (st', f')" by blast
  with assms show ?thesis
    unfolding main_load_def fread_bytes_def Let_def by (simp add: add.commute)
qed

text \<open>
  No file makes the loader take a remainder by zero or leave an array: when the load
  fails, a read has failed.
\<close>

lemma parse_triangle_errors:
  assumes inv: "loader_inv st" and nz: "num_buckets st \<noteq> 0"
    and e: "parse_triangle (st, f) = Inl e"
  shows "e \<in> {Failed_to_read_normal, Failed_to_read_vertices,
               Failed_to_read_attribute_byte_count}"
proof -
  have "process_vertices st vs \<noteq> Inl e'" for vs e'
    using process_vertices_defined [OF inv nz, of vs] by auto
  with e show ?thesis
    unfolding parse_triangle_def Let_def fst_conv snd_conv
    by (auto split: option.splits sum.splits prod.splits simp del: process_vertices.simps)
qed

lemma parse_triangles_errors:
  "loader_inv st \<Longrightarrow> (n \<noteq> 0 \<longrightarrow> num_buckets st \<noteq> 0) \<Longrightarrow> parse_triangles n (st, f) = Inl e
     \<Longrightarrow> e \<in> {Failed_to_read_normal, Failed_to_read_vertices,
               Failed_to_read_attribute_byte_count}"
proof (induction n arbitrary: st f)
  case 0
  then show ?case by simp
next
  case (Suc n)
  from Suc.prems(2) have nz: "num_buckets st \<noteq> 0" by simp
  show ?case
  proof (cases "parse_triangle (st, f)")
    case (Inl e')
    with Suc.prems(3) have "e' = e" by simp
    with Inl parse_triangle_errors [OF Suc.prems(1) nz] show ?thesis by blast
  next
    case (Inr sf)
    obtain st1 f1 where sf: "sf = (st1, f1)" by (cases sf)
    from parse_triangle_vertices [of st f st1 f1] Inr sf obtain vs where
      vs: "process_vertices st vs = Inr st1" by auto
    from Suc.prems(1) vs have i1: "loader_inv st1" by (rule loader_inv_process_vertices)
    from vs nz have n1: "num_buckets st1 \<noteq> 0" by (simp add: process_vertices_num_buckets)
    from Suc.prems(3) Inr sf have "parse_triangles n (st1, f1) = Inl e" by simp
    with i1 n1 show ?thesis using Suc.IH [of st1 f1] by simp
  qed
qed

lemma main_load_errors:
  assumes "main_load mesh = Inl e"
  shows "e \<in> {Failed_to_read_number_of_triangles, Failed_to_read_normal,
               Failed_to_read_vertices, Failed_to_read_attribute_byte_count}"
proof (cases "fread_bytes 4 (drop 80 mesh)")
  case None
  with assms show ?thesis by (simp add: main_load_def)
next
  case (Some bf)
  obtain bs f where bf: "bf = (bs, f)" by (cases bf)
  let ?n = "le_uint32 bs"
  have nz: "unat ?n \<noteq> 0 \<longrightarrow> num_buckets (init_state ?n) \<noteq> 0"
    using three_times_nonzero [of ?n] by (auto simp add: init_state_def Let_def unat_eq_zero)
  from assms Some bf have "parse_triangles (unat ?n) (init_state ?n, f) = Inl e"
    by (auto simp add: main_load_def Let_def split: sum.splits)
  from parse_triangles_errors [OF loader_inv_init nz this] show ?thesis by blast
qed


subsection \<open>Files of one triangle\<close>

lemma hash_0_0_0: "hash 0 0 0 = 0"
  by code_simp

lemma hash_1_0_0: "hash 0x3f800000 0 0 = 0xcf56662f"
  by code_simp

lemma hash_0_1_0: "hash 0 0x3f800000 0 = 0x81a7e301"
  by code_simp

lemma hash_0_0_1: "hash 0 0 0x3f800000 = 0x2cac265d"
  by code_simp

lemma init_state_1:
  "init_state 1 =
     \<lparr>unique_vertices = [None, None, None], num_unique_vertices = 0,
      preallocated_nodes = [None, None, None], new_node_index = 0,
      num_buckets = 3, buckets = [None, None, None]\<rparr>"
proof -
  have "unat (3 * 1 :: 32 word) = 3" by simp
  then show ?thesis by (simp add: init_state_def Let_def numeral_3_eq_3)
qed

lemma minimal_vertices_processed:
  "process_vertices (init_state 1)
     [\<lparr>x = 0, y = 0, z = 0\<rparr>, \<lparr>x = 0x3f800000, y = 0, z = 0\<rparr>, \<lparr>x = 0, y = 0x3f800000, z = 0\<rparr>]
   = Inr \<lparr>unique_vertices =
            [Some \<lparr>x = 0, y = 0, z = 0\<rparr>, Some \<lparr>x = 0x3f800000, y = 0, z = 0\<rparr>,
             Some \<lparr>x = 0, y = 0x3f800000, z = 0\<rparr>],
          num_unique_vertices = 3,
          preallocated_nodes =
            [Some \<lparr>node_key = \<lparr>x = 0, y = 0, z = 0\<rparr>, node_value = 0, node_next = None\<rparr>,
             Some \<lparr>node_key = \<lparr>x = 0x3f800000, y = 0, z = 0\<rparr>, node_value = 1,
                   node_next = None\<rparr>,
             Some \<lparr>node_key = \<lparr>x = 0, y = 0x3f800000, z = 0\<rparr>, node_value = 2,
                   node_next = None\<rparr>],
          new_node_index = 3, num_buckets = 3,
          buckets = [Some 0, Some 1, Some 2]\<rparr>"
  by (simp add: init_state_1 process_vertex_def hash_0_0_0 hash_1_0_0 hash_0_1_0 Let_def)

lemma colliding_vertices_processed:
  "process_vertices (init_state 1)
     [\<lparr>x = 0, y = 0, z = 0\<rparr>, \<lparr>x = 0, y = 0x3f800000, z = 0\<rparr>, \<lparr>x = 0, y = 0, z = 0x3f800000\<rparr>]
   = Inr \<lparr>unique_vertices =
            [Some \<lparr>x = 0, y = 0, z = 0\<rparr>, Some \<lparr>x = 0, y = 0x3f800000, z = 0\<rparr>, None],
          num_unique_vertices = 2,
          preallocated_nodes =
            [Some \<lparr>node_key = \<lparr>x = 0, y = 0, z = 0\<rparr>, node_value = 0, node_next = None\<rparr>,
             Some \<lparr>node_key = \<lparr>x = 0, y = 0x3f800000, z = 0\<rparr>, node_value = 1,
                   node_next = None\<rparr>,
             None],
          new_node_index = 2, num_buckets = 3,
          buckets = [Some 0, None, Some 1]\<rparr>"
  by (simp add: init_state_1 process_vertex_def hash_0_0_0 hash_0_0_1 hash_0_1_0 Let_def)

lemma read_minimal_vertices:
  "read_vec3 (take 12 minimal_mesh_vertices) = \<lparr>x = 0, y = 0, z = 0\<rparr>"
  "read_vec3 (take 12 (drop 12 minimal_mesh_vertices)) = \<lparr>x = 0x3f800000, y = 0, z = 0\<rparr>"
  "read_vec3 (take 12 (drop 24 minimal_mesh_vertices)) = \<lparr>x = 0, y = 0x3f800000, z = 0\<rparr>"
  by (simp_all add: read_vec3_def minimal_mesh_vertices_def)

lemma read_colliding_vertices:
  "read_vec3 (take 12 colliding_mesh_vertices) = \<lparr>x = 0, y = 0, z = 0\<rparr>"
  "read_vec3 (take 12 (drop 12 colliding_mesh_vertices)) = \<lparr>x = 0, y = 0x3f800000, z = 0\<rparr>"
  "read_vec3 (take 12 (drop 24 colliding_mesh_vertices)) = \<lparr>x = 0, y = 0, z = 0x3f800000\<rparr>"
  by (simp_all add: read_vec3_def colliding_mesh_vertices_def)

lemma fread_bytes_append: "length a = n \<Longrightarrow> fread_bytes n (a @ f) = Some (a, f)"
  by (simp add: fread_bytes_def)

lemma main_load_one_triangle:
  assumes "length header = 80" "length triangle_normal = 12" "length vs = 36"
    "length attribute_byte_count = 2"
  shows "main_load (header @ [1, 0, 0, 0] @ triangle_normal @ vs @ attribute_byte_count)
    = process_vertices (init_state 1)
        [read_vec3 (take 12 vs), read_vec3 (take 12 (drop 12 vs)),
         read_vec3 (take 12 (drop 24 vs))]"
proof -
  have n: "fread_bytes 4 (1 # 0 # 0 # 0 # f) = Some ([1, 0, 0, 0], f)" for f :: "byte list"
    by (simp add: fread_bytes_def)
  have c: "le_uint32 [1, 0, 0, 0] = 1" by simp
  have t: "parse_triangle (st, triangle_normal @ vs @ attribute_byte_count)
     = (case process_vertices st [read_vec3 (take 12 vs), read_vec3 (take 12 (drop 12 vs)),
         read_vec3 (take 12 (drop 24 vs))] of Inl e \<Rightarrow> Inl e | Inr st' \<Rightarrow> Inr (st', []))" for st
    using assms(2-4) fread_bytes_append [of attribute_byte_count 2 "[]"]
    by (simp add: parse_triangle_def fread_bytes_append Let_def)
  show ?thesis
    using assms(1) by (simp add: main_load_def n c t split: sum.splits)
qed

text \<open>
  Claim C2. A file made of 80 header bytes, the triangle count 1 and one triangle with the
  vertices \<open>(0,0,0)\<close>, \<open>(1,0,0)\<close>, \<open>(0,1,0)\<close> loads without error, and the loader counts
  3 unique vertices, whatever the header, the normal and the attribute bytes are. (The
  three hashes fall into the three different buckets 0, 1 and 2.)
\<close>

theorem minimal_mesh_has_three_unique_vertices:
  assumes "length header = 80" "length triangle_normal = 12" "length attribute_byte_count = 2"
  shows "\<exists>st. main_load (header @ [1, 0, 0, 0] @ triangle_normal @ minimal_mesh_vertices
                   @ attribute_byte_count) = Inr st
              \<and> num_unique_vertices st = 3"
proof -
  have "length minimal_mesh_vertices = 36" by (simp add: minimal_mesh_vertices_def)
  from main_load_one_triangle [OF assms(1,2) this assms(3)]
  have "main_load (header @ [1, 0, 0, 0] @ triangle_normal @ minimal_mesh_vertices
                   @ attribute_byte_count)
    = process_vertices (init_state 1)
        [\<lparr>x = 0, y = 0, z = 0\<rparr>, \<lparr>x = 0x3f800000, y = 0, z = 0\<rparr>,
         \<lparr>x = 0, y = 0x3f800000, z = 0\<rparr>]"
    by (simp only: read_minimal_vertices)
  then show ?thesis
    unfolding minimal_vertices_processed by simp
qed

theorem minimal_mesh_has_three_unique_vertices_witness:
  "\<exists>st. main_load (replicate 80 0 @ [1, 0, 0, 0] @ replicate 12 0 @ minimal_mesh_vertices
                   @ [0, 0]) = Inr st
              \<and> num_unique_vertices st = 3"
  using minimal_mesh_has_three_unique_vertices [of "replicate 80 0" "replicate 12 0" "[0, 0]"]
  by simp

text \<open>
  Claim C1. The claim has the loader compare the keys along the chain of the bucket and
  insert a vertex that has no bit-identical key there. The loader only tests whether the
  bucket is empty (line 188): in the triangle \<open>(0,0,0)\<close>, \<open>(0,1,0)\<close>, \<open>(0,0,1)\<close> the
  hashes of the last two vertices both fall into bucket 2 of 3, and the third vertex,
  distinct from the other two, is neither given a node nor appended: the loader counts 2
  unique vertices.
\<close>

theorem colliding_vertex_is_dropped:
  "\<exists>st. main_load (replicate 80 0 @ [1, 0, 0, 0] @ replicate 12 0 @ colliding_mesh_vertices
                   @ [0, 0]) = Inr st
     \<and> num_unique_vertices st = 2
     \<and> unique_vertices st
         = [Some \<lparr>x = 0, y = 0, z = 0\<rparr>, Some \<lparr>x = 0, y = 0x3f800000, z = 0\<rparr>, None]"
proof -
  have "length colliding_mesh_vertices = 36" by (simp add: colliding_mesh_vertices_def)
  from main_load_one_triangle [of "replicate 80 0" "replicate 12 0", OF _ _ this, of "[0, 0]"]
  have "main_load (replicate 80 0 @ [1, 0, 0, 0] @ replicate 12 0 @ colliding_mesh_vertices
                   @ [0, 0])
    = process_vertices (init_state 1)
        [\<lparr>x = 0, y = 0, z = 0\<rparr>, \<lparr>x = 0, y = 0x3f800000, z = 0\<rparr>,
         \<lparr>x = 0, y = 0, z = 0x3f800000\<rparr>]"
    by (simp only: read_colliding_vertices length_replicate list.size)
  then show ?thesis
    unfolding colliding_vertices_processed by simp
qed

lemma repeated_vertices_processed:
  "process_vertices (init_state 1)
     [\<lparr>x = 0, y = 0x3f800000, z = 0\<rparr>, \<lparr>x = 0, y = 0, z = 0x3f800000\<rparr>,
      \<lparr>x = 0, y = 0, z = 0x3f800000\<rparr>]
   = Inr \<lparr>unique_vertices = [Some \<lparr>x = 0, y = 0x3f800000, z = 0\<rparr>, None, None],
          num_unique_vertices = 1,
          preallocated_nodes =
            [Some \<lparr>node_key = \<lparr>x = 0, y = 0x3f800000, z = 0\<rparr>, node_value = 0,
                   node_next = None\<rparr>,
             None, None],
          new_node_index = 1, num_buckets = 3,
          buckets = [None, None, Some 0]\<rparr>"
  by (simp add: init_state_1 process_vertex_def hash_0_0_1 hash_0_1_0 Let_def)

lemma read_repeated_vertices:
  "read_vec3 (take 12 repeated_mesh_vertices) = \<lparr>x = 0, y = 0x3f800000, z = 0\<rparr>"
  "read_vec3 (take 12 (drop 12 repeated_mesh_vertices)) = \<lparr>x = 0, y = 0, z = 0x3f800000\<rparr>"
  "read_vec3 (take 12 (drop 24 repeated_mesh_vertices)) = \<lparr>x = 0, y = 0, z = 0x3f800000\<rparr>"
  by (simp_all add: read_vec3_def repeated_mesh_vertices_def)

lemma repeated_vertex_stream:
  "mesh_vertices repeated_vertex_mesh =
     [\<lparr>x = 0, y = 0x3f800000, z = 0\<rparr>, \<lparr>x = 0, y = 0, z = 0x3f800000\<rparr>,
      \<lparr>x = 0, y = 0, z = 0x3f800000\<rparr>]"
proof -
  have n: "le_uint32 (take 4 (drop 80 repeated_vertex_mesh)) = 1"
    by (simp add: repeated_vertex_mesh_def)
  have "triangle_stream (Suc 0) (drop 84 repeated_vertex_mesh) =
     [\<lparr>x = 0, y = 0x3f800000, z = 0\<rparr>, \<lparr>x = 0, y = 0, z = 0x3f800000\<rparr>,
      \<lparr>x = 0, y = 0, z = 0x3f800000\<rparr>]"
    by (simp add: repeated_vertex_mesh_def repeated_mesh_vertices_def read_vec3_def Let_def)
  moreover have "unat (1 :: 32 word) = Suc 0" by simp
  ultimately show ?thesis
    by (simp only: mesh_vertices_def n)
qed

text \<open>
  Claim C3. The claim has two bit-identical occurrences of a vertex get the same index
  of the unique-vertex sequence. The loader gives an index only to a vertex that finds its
  bucket empty (lines 188 to 197). In the triangle \<open>(0,1,0)\<close>, \<open>(0,0,1)\<close>, \<open>(0,0,1)\<close> the
  two occurrences of \<open>(0,0,1)\<close> are bit-identical, and both find bucket 2 of 3 taken by
  the node of \<open>(0,1,0)\<close>: neither gets an index, the loader counts 1 unique vertex, and
  no cell of the unique-vertex sequence holds \<open>(0,0,1)\<close>.
\<close>

theorem repeated_vertex_gets_no_index:
  "mesh_vertices repeated_vertex_mesh ! 1 = \<lparr>x = 0, y = 0, z = 0x3f800000\<rparr>
   \<and> mesh_vertices repeated_vertex_mesh ! 2 = \<lparr>x = 0, y = 0, z = 0x3f800000\<rparr>
   \<and> (\<exists>st. main_load repeated_vertex_mesh = Inr st
          \<and> num_unique_vertices st = 1
          \<and> unique_vertices st = [Some \<lparr>x = 0, y = 0x3f800000, z = 0\<rparr>, None, None]
          \<and> Some \<lparr>x = 0, y = 0, z = 0x3f800000\<rparr> \<notin> set (unique_vertices st))"
proof -
  have "length repeated_mesh_vertices = 36" by (simp add: repeated_mesh_vertices_def)
  from main_load_one_triangle [of "replicate 80 0" "replicate 12 0", OF _ _ this, of "[0, 0]"]
  have "main_load repeated_vertex_mesh
    = process_vertices (init_state 1)
        [\<lparr>x = 0, y = 0x3f800000, z = 0\<rparr>, \<lparr>x = 0, y = 0, z = 0x3f800000\<rparr>,
         \<lparr>x = 0, y = 0, z = 0x3f800000\<rparr>]"
    unfolding repeated_vertex_mesh_def
    by (simp only: read_repeated_vertices length_replicate list.size)
  then show ?thesis
    unfolding repeated_vertices_processed repeated_vertex_stream by simp
qed

subsection \<open>The general statements at concrete inputs\<close>

lemma minimal_mesh_loaded:
  "main_load minimal_mesh
    = process_vertices (init_state 1)
        [\<lparr>x = 0, y = 0, z = 0\<rparr>, \<lparr>x = 0x3f800000, y = 0, z = 0\<rparr>,
         \<lparr>x = 0, y = 0x3f800000, z = 0\<rparr>]"
proof -
  have "length minimal_mesh_vertices = 36" by (simp add: minimal_mesh_vertices_def)
  from main_load_one_triangle [of "replicate 80 0" "replicate 12 0", OF _ _ this, of "[0, 0]"]
  show ?thesis
    unfolding minimal_mesh_def
    by (simp only: read_minimal_vertices length_replicate list.size)
qed

lemma minimal_mesh_num_tris: "le_uint32 (take 4 (drop 80 minimal_mesh)) = 1"
  by (simp add: minimal_mesh_def)

lemma minimal_mesh_triangle:
  "parse_triangle (st, replicate 12 0 @ minimal_mesh_vertices @ [0, 0])
     = (case process_vertices st
               [\<lparr>x = 0, y = 0, z = 0\<rparr>, \<lparr>x = 0x3f800000, y = 0, z = 0\<rparr>,
                \<lparr>x = 0, y = 0x3f800000, z = 0\<rparr>] of
          Inl e \<Rightarrow> Inl e
        | Inr st' \<Rightarrow> Inr (st', []))"
proof -
  have l: "length minimal_mesh_vertices = 36" by (simp add: minimal_mesh_vertices_def)
  have "fread_bytes 12 (replicate 12 0 @ minimal_mesh_vertices @ [0, 0])
      = Some (replicate 12 0, minimal_mesh_vertices @ [0, 0])"
    by (rule fread_bytes_append) simp
  moreover have "fread_bytes 36 (minimal_mesh_vertices @ [0, 0]) = Some (minimal_mesh_vertices, [0, 0])"
    using l by (rule fread_bytes_append)
  moreover have "fread_bytes 2 [0, 0] = Some ([0, 0], [])"
    by (simp add: fread_bytes_def)
  ultimately show ?thesis
    by (simp only: parse_triangle_def Let_def fst_conv snd_conv option.case prod.case
          read_minimal_vertices)
qed

theorem unique_count_bounded_and_monotone_witness:
  "(\<exists>st. process_vertices (init_state 1)
            [\<lparr>x = 0, y = 0, z = 0\<rparr>, \<lparr>x = 0x3f800000, y = 0, z = 0\<rparr>] = Inr st
          \<and> num_unique_vertices st \<le> 3 * unat (1 :: 32 word))
   \<and> (\<exists>st. main_load minimal_mesh = Inr st
          \<and> num_unique_vertices st \<le> 3 * unat (le_uint32 (take 4 (drop 80 minimal_mesh))))
   \<and> (\<exists>st2. process_vertex (init_state 1) \<lparr>x = 0, y = 0, z = 0\<rparr> = Inr st2
          \<and> num_unique_vertices (init_state 1) \<le> num_unique_vertices st2)
   \<and> (\<exists>st2 f2. parse_triangle (init_state 1, replicate 12 0 @ minimal_mesh_vertices @ [0, 0])
            = Inr (st2, f2)
          \<and> num_unique_vertices (init_state 1) \<le> num_unique_vertices st2)"
proof -
  obtain sa where a: "process_vertices (init_state 1)
            [\<lparr>x = 0, y = 0, z = 0\<rparr>, \<lparr>x = 0x3f800000, y = 0, z = 0\<rparr>] = Inr sa"
    by (simp add: init_state_1 process_vertex_def hash_0_0_0 hash_1_0_0 Let_def)
  obtain sb where b: "main_load minimal_mesh = Inr sb"
    unfolding minimal_mesh_loaded minimal_vertices_processed by simp
  obtain sc where c: "process_vertex (init_state 1) \<lparr>x = 0, y = 0, z = 0\<rparr> = Inr sc"
    by (simp add: init_state_1 process_vertex_def hash_0_0_0 Let_def)
  obtain sd where d: "parse_triangle (init_state 1, replicate 12 0 @ minimal_mesh_vertices @ [0, 0])
            = Inr (sd, [])"
    unfolding minimal_mesh_triangle minimal_vertices_processed by simp
  from unique_count_bounded_and_monotone
         [where num_tris = 1 and st = sa and s = "init_state 1" and s' = sc
            and vs = "[\<lparr>x = 0, y = 0, z = 0\<rparr>, \<lparr>x = 0x3f800000, y = 0, z = 0\<rparr>]"
            and v = "\<lparr>x = 0, y = 0, z = 0\<rparr>"]
       unique_count_bounded_and_monotone
         [where st = sb and mesh = minimal_mesh and s = "init_state 1" and s' = sd
            and f = "replicate 12 0 @ minimal_mesh_vertices @ [0, 0]" and f' = "[]"]
       a b c d
  show ?thesis by blast
qed

theorem table_invariant_throughout_witness:
  "(\<exists>st. process_vertices (init_state 1)
            [\<lparr>x = 0, y = 0, z = 0\<rparr>, \<lparr>x = 0x3f800000, y = 0, z = 0\<rparr>] = Inr st
          \<and> table_invariant st)
   \<and> (\<exists>st. main_load minimal_mesh = Inr st \<and> table_invariant st)"
proof -
  obtain sa where a: "process_vertices (init_state 1)
            [\<lparr>x = 0, y = 0, z = 0\<rparr>, \<lparr>x = 0x3f800000, y = 0, z = 0\<rparr>] = Inr sa"
    by (simp add: init_state_1 process_vertex_def hash_0_0_0 hash_1_0_0 Let_def)
  obtain sb where b: "main_load minimal_mesh = Inr sb"
    unfolding minimal_mesh_loaded minimal_vertices_processed by simp
  from table_invariant_throughout
         [of 1 "[\<lparr>x = 0, y = 0, z = 0\<rparr>, \<lparr>x = 0x3f800000, y = 0, z = 0\<rparr>]" sa minimal_mesh sb]
       a b
  show ?thesis by blast
qed

subsection \<open>The sphere and the light\<close>

lemma exact_ops_simps:
  "fadd exact_ops a b = a + b" "fsub exact_ops a b = a - b" "fmul exact_ops a b = a * b"
  "fdiv exact_ops a b = a / b" "fneg exact_ops a = - a" "flt exact_ops a b \<longleftrightarrow> a < b"
  "sqrtf exact_ops a = sqrt a" "powf exact_ops a b = a powr b"
  "float_of_int exact_ops k = of_int k"
  "to_uint8 exact_ops a = word_of_int (if 0 \<le> a then \<lfloor>a\<rfloor> else \<lceil>a\<rceil>)"
  by (simp_all add: exact_ops_def)

lemma exact_ops_exact_on_integers: "exact_on_integers exact_ops"
proof -
  have d: "real_of_int a / real_of_int b = real_of_int (a div b)" if "b dvd a" for a b :: int
    using that by (simp add: real_of_int_div)
  have s: "sqrt (real_of_int a * real_of_int a) = \<bar>real_of_int a\<bar>" for a :: int
    by simp
  show ?thesis
    unfolding exact_on_integers_def exact_ops_simps
    by (simp add: d s)
qed

lemma exact_fadd:
  "exact_on_integers ops \<Longrightarrow> \<bar>a\<bar> \<le> 1000 \<Longrightarrow> \<bar>b\<bar> \<le> 1000 \<Longrightarrow>
     fadd ops (float_of_int ops a) (float_of_int ops b) = float_of_int ops (a + b)"
  unfolding exact_on_integers_def by blast

lemma exact_fsub:
  "exact_on_integers ops \<Longrightarrow> \<bar>a\<bar> \<le> 1000 \<Longrightarrow> \<bar>b\<bar> \<le> 1000 \<Longrightarrow>
     fsub ops (float_of_int ops a) (float_of_int ops b) = float_of_int ops (a - b)"
  unfolding exact_on_integers_def by blast

lemma exact_fmul:
  "exact_on_integers ops \<Longrightarrow> \<bar>a\<bar> \<le> 1000 \<Longrightarrow> \<bar>b\<bar> \<le> 1000 \<Longrightarrow>
     a * b \<noteq> 0 \<or> (0 \<le> a \<and> 0 \<le> b) \<Longrightarrow>
     fmul ops (float_of_int ops a) (float_of_int ops b) = float_of_int ops (a * b)"
  unfolding exact_on_integers_def by blast

lemma exact_fdiv:
  "exact_on_integers ops \<Longrightarrow> \<bar>a\<bar> \<le> 1000 \<Longrightarrow> \<bar>b\<bar> \<le> 1000 \<Longrightarrow>
     b \<noteq> 0 \<and> b dvd a \<and> (a \<noteq> 0 \<or> 0 < b) \<Longrightarrow>
     fdiv ops (float_of_int ops a) (float_of_int ops b) = float_of_int ops (a div b)"
  unfolding exact_on_integers_def by blast

lemma exact_fneg:
  "exact_on_integers ops \<Longrightarrow> \<bar>a\<bar> \<le> 1000 \<Longrightarrow> a \<noteq> 0 \<Longrightarrow>
     fneg ops (float_of_int ops a) = float_of_int ops (- a)"
  unfolding exact_on_integers_def by (metis abs_zero zero_le_numeral)

lemma exact_sqrtf:
  "exact_on_integers ops \<Longrightarrow> \<bar>a\<bar> \<le> 1000 \<Longrightarrow>
     sqrtf ops (float_of_int ops (a * a)) = float_of_int ops \<bar>a\<bar>"
  unfolding exact_on_integers_def by (metis abs_zero zero_le_numeral)

lemma exact_flt:
  "exact_on_integers ops \<Longrightarrow> \<bar>a\<bar> \<le> 1000 \<Longrightarrow> \<bar>b\<bar> \<le> 1000 \<Longrightarrow>
     flt ops (float_of_int ops a) (float_of_int ops b) \<longleftrightarrow> a < b"
  unfolding exact_on_integers_def by blast

text \<open>
  Claim C6. The ray from the origin in the direction \<open>(0,0,-1)\<close> meets the sphere of
  centre \<open>(0,0,-2)\<close> and radius 1: the routine reports a hit with \<open>t = 1\<close>, the position
  \<open>(0,0,-1)\<close> and the normal \<open>(0,0,1)\<close>. This holds for every float arithmetic that is
  exact on small integers; every intermediate value of the computation is one of the
  integers \<open>-4, \<dots>, 16\<close>.
\<close>

theorem sphere_scene_hit:
  assumes e: "exact_on_integers ops"
  shows "ray_sphere_intersection_with_normal_and_position ops
           \<lparr>origin = \<lparr>x = float_of_int ops 0, y = float_of_int ops 0, z = float_of_int ops 0\<rparr>,
            direction = \<lparr>x = float_of_int ops 0, y = float_of_int ops 0,
                         z = float_of_int ops (- 1)\<rparr>\<rparr>
           \<lparr>center = \<lparr>x = float_of_int ops 0, y = float_of_int ops 0,
                      z = float_of_int ops (- 2)\<rparr>,
            radius = float_of_int ops 1\<rparr>
         = Some (float_of_int ops 1,
                 \<lparr>x = float_of_int ops 0, y = float_of_int ops 0, z = float_of_int ops 1\<rparr>,
                 \<lparr>x = float_of_int ops 0, y = float_of_int ops 0, z = float_of_int ops (- 1)\<rparr>)"
proof -
  note r = exact_fadd [OF e] exact_fsub [OF e] exact_fmul [OF e] exact_fdiv [OF e]
    exact_fneg [OF e] exact_flt [OF e]
  have q: "sqrtf ops (float_of_int ops 4) = float_of_int ops 2"
    using exact_sqrtf [OF e, of 2] by simp
  have t: "ray_sphere_intersection ops
           \<lparr>origin = \<lparr>x = float_of_int ops 0, y = float_of_int ops 0, z = float_of_int ops 0\<rparr>,
            direction = \<lparr>x = float_of_int ops 0, y = float_of_int ops 0,
                         z = float_of_int ops (- 1)\<rparr>\<rparr>
           \<lparr>center = \<lparr>x = float_of_int ops 0, y = float_of_int ops 0,
                      z = float_of_int ops (- 2)\<rparr>,
            radius = float_of_int ops 1\<rparr> = Some (float_of_int ops 1)"
    by (simp add: ray_sphere_intersection_def Let_def r q)
  show ?thesis
    by (simp add: ray_sphere_intersection_with_normal_and_position_def t vec3_add_def
          vec3_scale_def vec3_sub_def r)
qed

theorem sphere_scene_hit_witness:
  "exact_on_integers exact_ops
   \<and> ray_sphere_intersection_with_normal_and_position exact_ops
        \<lparr>origin = \<lparr>x = 0, y = 0, z = 0\<rparr>, direction = \<lparr>x = 0, y = 0, z = - 1\<rparr>\<rparr>
        \<lparr>center = \<lparr>x = 0, y = 0, z = - 2\<rparr>, radius = 1\<rparr>
      = Some (1, \<lparr>x = 0, y = 0, z = 1\<rparr>, \<lparr>x = 0, y = 0, z = - 1\<rparr>)"
  using sphere_scene_hit [OF exact_ops_exact_on_integers] exact_ops_exact_on_integers
  by (simp add: exact_ops_simps)

text \<open>
  Claim C8. With a light whose power compares below zero, Blinn-Phong shading returns
  zero for the diffuse and for the specular colour, whatever the surface position, the
  normal, the view direction and the hardness are, and whatever the float arithmetic is.
\<close>

theorem negative_power_gives_no_light:
  assumes "flt ops (light_power pl) (float_of_int ops 0)"
  shows "blinn_phong_shading ops pl surface_position surface_normal view_direction
           specular_hardness
         = \<lparr>color = \<lparr>x = float_of_int ops 0, y = float_of_int ops 0, z = float_of_int ops 0\<rparr>,
            specular = \<lparr>x = float_of_int ops 0, y = float_of_int ops 0,
                         z = float_of_int ops 0\<rparr>\<rparr>"
  using assms by (simp add: blinn_phong_shading_def)

theorem negative_power_gives_no_light_witness:
  "flt exact_ops (light_power ((light1 exact_ops)\<lparr>light_power := - 1\<rparr>)) (float_of_int exact_ops 0)
   \<and> blinn_phong_shading exact_ops ((light1 exact_ops)\<lparr>light_power := - 1\<rparr>)
        \<lparr>x = 0, y = 0, z = - 1\<rparr> \<lparr>x = 0, y = 0, z = 1\<rparr> \<lparr>x = 0, y = 0, z = - 1\<rparr> 20
      = \<lparr>color = \<lparr>x = 0, y = 0, z = 0\<rparr>, specular = \<lparr>x = 0, y = 0, z = 0\<rparr>\<rparr>"
proof -
  have h: "flt exact_ops (light_power ((light1 exact_ops)\<lparr>light_power := - 1\<rparr>))
             (float_of_int exact_ops 0)"
    by (simp add: exact_ops_simps)
  from negative_power_gives_no_light [OF h] h show ?thesis
    by (simp add: exact_ops_simps)
qed

text \<open>
  Claim C5. With \<open>a = dot(direction, direction)\<close>, \<open>b = 2 dot(oc, direction)\<close> and
  \<open>c = dot(oc, oc) - radius\<^sup>2\<close> for \<open>oc = origin - center\<close>, the routine reports no
  intersection exactly when \<open>b\<^sup>2 - 4ac\<close> compares below zero; otherwise it reports the
  near root \<open>t = (-b - sqrt(b\<^sup>2 - 4ac)) / (2a)\<close>, whatever its sign, with the position
  \<open>origin + t direction\<close> and the normal \<open>(position - center) (1 / radius)\<close>. This holds for
  every float arithmetic. The product with \<open>1 / radius\<close> is the quotient by the radius in
  exact arithmetic, which is the second part.
\<close>

theorem intersection_reports_the_near_root:
  "ray_sphere_intersection_with_normal_and_position ops r s =
     (let oc = vec3_sub ops (origin r) (center s);
          a = vec3_dot ops (direction r) (direction r);
          b = fmul ops (float_of_int ops 2) (vec3_dot ops oc (direction r));
          c = fsub ops (vec3_dot ops oc oc) (fmul ops (radius s) (radius s));
          discriminant =
            fsub ops (fmul ops b b) (fmul ops (fmul ops (float_of_int ops 4) a) c)
      in if flt ops discriminant (float_of_int ops 0) then None
         else
           let t = fdiv ops (fsub ops (fneg ops b) (sqrtf ops discriminant))
                     (fmul ops (float_of_int ops 2) a);
               position = vec3_add ops (origin r) (vec3_scale ops (direction r) t);
               normal = vec3_scale ops (vec3_sub ops position (center s))
                          (fdiv ops (float_of_int ops 1) (radius s))
           in Some (t, normal, position))
   \<and> (ray_sphere_intersection_with_normal_and_position exact_ops r' s' = Some (t', n', p') \<longrightarrow>
        x p' = x (origin r') + t' * x (direction r')
        \<and> y p' = y (origin r') + t' * y (direction r')
        \<and> z p' = z (origin r') + t' * z (direction r')
        \<and> x n' = (x p' - x (center s')) / radius s'
        \<and> y n' = (y p' - y (center s')) / radius s'
        \<and> z n' = (z p' - z (center s')) / radius s')"
proof (intro conjI impI)
  show "ray_sphere_intersection_with_normal_and_position ops r s =
     (let oc = vec3_sub ops (origin r) (center s);
          a = vec3_dot ops (direction r) (direction r);
          b = fmul ops (float_of_int ops 2) (vec3_dot ops oc (direction r));
          c = fsub ops (vec3_dot ops oc oc) (fmul ops (radius s) (radius s));
          discriminant =
            fsub ops (fmul ops b b) (fmul ops (fmul ops (float_of_int ops 4) a) c)
      in if flt ops discriminant (float_of_int ops 0) then None
         else
           let t = fdiv ops (fsub ops (fneg ops b) (sqrtf ops discriminant))
                     (fmul ops (float_of_int ops 2) a);
               position = vec3_add ops (origin r) (vec3_scale ops (direction r) t);
               normal = vec3_scale ops (vec3_sub ops position (center s))
                          (fdiv ops (float_of_int ops 1) (radius s))
           in Some (t, normal, position))"
    by (simp add: ray_sphere_intersection_with_normal_and_position_def
          ray_sphere_intersection_def vec3_sub_def vec3_dot_def Let_def)
next
  assume h: "ray_sphere_intersection_with_normal_and_position exact_ops r' s' = Some (t', n', p')"
  then have p: "p' = vec3_add exact_ops (origin r') (vec3_scale exact_ops (direction r') t')"
    and n: "n' = vec3_scale exact_ops (vec3_sub exact_ops p' (center s'))
                   (fdiv exact_ops (float_of_int exact_ops 1) (radius s'))"
    by (auto simp add: ray_sphere_intersection_with_normal_and_position_def Let_def
          split: option.splits)
  from p show "x p' = x (origin r') + t' * x (direction r')"
    "y p' = y (origin r') + t' * y (direction r')"
    "z p' = z (origin r') + t' * z (direction r')"
    by (simp_all add: vec3_add_def vec3_scale_def exact_ops_simps mult.commute)
  from n show "x n' = (x p' - x (center s')) / radius s'"
    "y n' = (y p' - y (center s')) / radius s'"
    "z n' = (z p' - z (center s')) / radius s'"
    by (simp_all add: vec3_sub_def vec3_scale_def exact_ops_simps)
qed

text \<open>
  A sphere behind the camera, centred at \<open>(0,0,2)\<close>: the near root is \<open>-3\<close>, and it is
  reported as a hit.
\<close>

theorem intersection_reports_the_near_root_witness:
  "ray_sphere_intersection_with_normal_and_position exact_ops
        \<lparr>origin = \<lparr>x = 0, y = 0, z = 0\<rparr>, direction = \<lparr>x = 0, y = 0, z = - 1\<rparr>\<rparr>
        \<lparr>center = \<lparr>x = 0, y = 0, z = 2\<rparr>, radius = 1\<rparr>
      = Some (- 3, \<lparr>x = 0, y = 0, z = 1\<rparr>, \<lparr>x = 0, y = 0, z = 3\<rparr>)
   \<and> (3 :: real) = 0 + (- 3) * (- 1)
   \<and> (1 :: real) = (3 - 2) / 1"
proof -
  have h: "ray_sphere_intersection_with_normal_and_position exact_ops
        \<lparr>origin = \<lparr>x = 0, y = 0, z = 0\<rparr>, direction = \<lparr>x = 0, y = 0, z = - 1\<rparr>\<rparr>
        \<lparr>center = \<lparr>x = 0, y = 0, z = 2\<rparr>, radius = 1\<rparr>
      = Some (- 3, \<lparr>x = 0, y = 0, z = 1\<rparr>, \<lparr>x = 0, y = 0, z = 3\<rparr>)"
    by (simp add: ray_sphere_intersection_with_normal_and_position_def
          ray_sphere_intersection_def vec3_add_def vec3_scale_def vec3_sub_def Let_def
          exact_ops_simps)
  from intersection_reports_the_near_root
         [where r' = "\<lparr>origin = \<lparr>x = 0, y = 0, z = 0\<rparr>, direction = \<lparr>x = 0, y = 0, z = - 1\<rparr>\<rparr>"
            and s' = "\<lparr>center = \<lparr>x = 0, y = 0, z = 2\<rparr>, radius = 1\<rparr>"
            and t' = "- 3" and n' = "\<lparr>x = 0, y = 0, z = 1\<rparr>"
            and p' = "\<lparr>x = 0, y = 0, z = 3\<rparr>"] h
  show ?thesis by simp
qed

subsection \<open>The pixel\<close>

lemma ops_update_powf:
  "fadd (ops\<lparr>powf := g\<rparr>) = fadd ops" "fsub (ops\<lparr>powf := g\<rparr>) = fsub ops"
  "fmul (ops\<lparr>powf := g\<rparr>) = fmul ops" "fdiv (ops\<lparr>powf := g\<rparr>) = fdiv ops"
  "fneg (ops\<lparr>powf := g\<rparr>) = fneg ops" "flt (ops\<lparr>powf := g\<rparr>) = flt ops"
  "sqrtf (ops\<lparr>powf := g\<rparr>) = sqrtf ops"
  "float_of_int (ops\<lparr>powf := g\<rparr>) = float_of_int ops"
  "to_uint8 (ops\<lparr>powf := g\<rparr>) = to_uint8 ops"
  by simp_all

lemma pixel_ray_powf: "pixel_ray (ops\<lparr>powf := g\<rparr>) i j = pixel_ray ops i j"
  by (simp add: pixel_ray_def vec3_normalized_def vec3_length_def vec3_length_squared_def)

lemma sphere_powf: "sphere (ops\<lparr>powf := g\<rparr>) = sphere ops"
  by (simp add: sphere_def)

lemma light1_powf: "light1 (ops\<lparr>powf := g\<rparr>) = light1 ops"
  by (simp add: light1_def)

lemma intersection_powf:
  "ray_sphere_intersection_with_normal_and_position (ops\<lparr>powf := g\<rparr>) r s
     = ray_sphere_intersection_with_normal_and_position ops r s"
  by (simp add: ray_sphere_intersection_with_normal_and_position_def
        ray_sphere_intersection_def vec3_add_def vec3_scale_def vec3_sub_def Let_def)

lemma diffuse_powf:
  "color (blinn_phong_shading (ops\<lparr>powf := g\<rparr>) pl p n v h)
     = color (blinn_phong_shading ops pl p n v h)"
  by (simp add: blinn_phong_shading_def Let_def vec3_sub_def vec3_scale_def vec3_dot_def
        vec3_length_squared_def clampf_def)

text \<open>
  Claim C7, as the code has it. For a pixel whose ray hits the sphere, the three bytes
  are computed from the diffuse colour of the shading result alone: each channel is
  scaled by 255, clamped to \<open>[0, 255]\<close> and cast to 8 bits. The specular colour does not
  enter: the pixel is the same whatever \<^verbatim>\<open>powf\<close>, which only the specular colour uses,
  returns. For a pixel whose ray misses, the bytes are \<open>(0, 0, 0)\<close>. This holds for every
  float arithmetic.
\<close>

theorem pixel_uses_the_diffuse_colour_only:
  "main_pixel ops i j =
     (case ray_sphere_intersection_with_normal_and_position ops (pixel_ray ops i j) (sphere ops) of
        None \<Rightarrow> (0, 0, 0)
      | Some (depth, normal, position) \<Rightarrow>
          (let diffuse = color (blinn_phong_shading ops (light1 ops) position normal
                 (direction (pixel_ray ops i j)) (float_of_int ops 20))
           in (to_uint8 ops (clampf ops (fmul ops (x diffuse) (float_of_int ops 255))
                 (float_of_int ops 0) (float_of_int ops 255)),
               to_uint8 ops (clampf ops (fmul ops (y diffuse) (float_of_int ops 255))
                 (float_of_int ops 0) (float_of_int ops 255)),
               to_uint8 ops (clampf ops (fmul ops (z diffuse) (float_of_int ops 255))
                 (float_of_int ops 0) (float_of_int ops 255)))))
   \<and> main_pixel (ops\<lparr>powf := g\<rparr>) i j = main_pixel ops i j"
proof
  show "main_pixel ops i j =
     (case ray_sphere_intersection_with_normal_and_position ops (pixel_ray ops i j) (sphere ops) of
        None \<Rightarrow> (0, 0, 0)
      | Some (depth, normal, position) \<Rightarrow>
          (let diffuse = color (blinn_phong_shading ops (light1 ops) position normal
                 (direction (pixel_ray ops i j)) (float_of_int ops 20))
           in (to_uint8 ops (clampf ops (fmul ops (x diffuse) (float_of_int ops 255))
                 (float_of_int ops 0) (float_of_int ops 255)),
               to_uint8 ops (clampf ops (fmul ops (y diffuse) (float_of_int ops 255))
                 (float_of_int ops 0) (float_of_int ops 255)),
               to_uint8 ops (clampf ops (fmul ops (z diffuse) (float_of_int ops 255))
                 (float_of_int ops 0) (float_of_int ops 255)))))"
    by (simp add: main_pixel_def Let_def split: option.splits)
next
  show "main_pixel (ops\<lparr>powf := g\<rparr>) i j = main_pixel ops i j"
    unfolding main_pixel_def Let_def pixel_ray_powf sphere_powf light1_powf intersection_powf
      diffuse_powf
    by (simp add: clampf_def split: option.splits)
qed

subsection \<open>The pixel (230, 135) in exact arithmetic\<close>

text \<open>
  The camera ray of this pixel has the direction \<open>(-6, -7, -16) / sqrt 341\<close>; the
  discriminant is \<open>4 / 341\<close>, the near root \<open>31 / sqrt 341\<close>, and the hit position and the
  normal are rational.
\<close>

lemma sqrt_341_256: "sqrt (341 / 256) = sqrt 341 / 16"
proof -
  have "sqrt 256 = 16" by (rule real_sqrt_unique) simp_all
  then show ?thesis by (simp add: real_sqrt_divide)
qed

lemma ray_230_135:
  "pixel_ray exact_ops 230 135 =
     \<lparr>origin = \<lparr>x = 0, y = 0, z = 0\<rparr>,
      direction = \<lparr>x = - 6 / sqrt 341, y = - 7 / sqrt 341, z = - 16 / sqrt 341\<rparr>\<rparr>"
proof -
  have l: "vec3_length exact_ops \<lparr>x = - 3 / 8, y = - 7 / 16, z = - 1\<rparr> = sqrt 341 / 16"
    by (simp add: vec3_length_def vec3_length_squared_def exact_ops_simps sqrt_341_256)
  have n: "vec3_normalized exact_ops \<lparr>x = - 3 / 8, y = - 7 / 16, z = - 1\<rparr>
    = \<lparr>x = - 6 / sqrt 341, y = - 7 / sqrt 341, z = - 16 / sqrt 341\<rparr>"
    unfolding vec3_normalized_def l Let_def by (simp add: exact_ops_simps)
  have "pixel_ray exact_ops 230 135 =
     \<lparr>origin = \<lparr>x = 0, y = 0, z = 0\<rparr>,
      direction = vec3_normalized exact_ops \<lparr>x = - 3 / 8, y = - 7 / 16, z = - 1\<rparr>\<rparr>"
    by (simp add: pixel_ray_def Let_def exact_ops_simps)
  then show ?thesis by (simp only: n)
qed

lemma sqrt_4_341: "sqrt (4 / 341) = 2 / sqrt 341"
  by (simp add: real_sqrt_divide)

lemma rsi_230_135:
  "ray_sphere_intersection exact_ops
     \<lparr>origin = \<lparr>x = 0, y = 0, z = 0\<rparr>,
      direction = \<lparr>x = - 6 / sqrt 341, y = - 7 / sqrt 341, z = - 16 / sqrt 341\<rparr>\<rparr>
     (sphere exact_ops) = Some (31 / sqrt 341)"
  by (simp add: ray_sphere_intersection_def sphere_def Let_def exact_ops_simps sqrt_4_341)

lemma hit_230_135:
  "ray_sphere_intersection_with_normal_and_position exact_ops
     \<lparr>origin = \<lparr>x = 0, y = 0, z = 0\<rparr>,
      direction = \<lparr>x = - 6 / sqrt 341, y = - 7 / sqrt 341, z = - 16 / sqrt 341\<rparr>\<rparr>
     (sphere exact_ops)
   = Some (31 / sqrt 341, \<lparr>x = - 6 / 11, y = - 7 / 11, z = 6 / 11\<rparr>,
           \<lparr>x = - 6 / 11, y = - 7 / 11, z = - 16 / 11\<rparr>)"
  unfolding ray_sphere_intersection_with_normal_and_position_def rsi_230_135
  by (simp add: sphere_def Let_def exact_ops_simps vec3_add_def vec3_scale_def vec3_sub_def)

lemma D_lower: "156 / 100 \<le> sqrt (27 / 11)"
  by (rule real_le_rsqrt) (simp add: power2_eq_square)

lemma D_upper: "sqrt (27 / 11) \<le> 157 / 100"
  by (rule real_le_lsqrt) (simp_all add: power2_eq_square)

lemma s_lower: "1846 / 100 \<le> sqrt 341"
  by (rule real_le_rsqrt) (simp add: power2_eq_square)

lemma s_upper: "sqrt 341 \<le> 1847 / 100"
  by (rule real_le_lsqrt) (simp_all add: power2_eq_square)

lemma diffuse_230_135:
  "color (blinn_phong_shading exact_ops (light1 exact_ops)
        \<lparr>x = - 6 / 11, y = - 7 / 11, z = - 16 / 11\<rparr> \<lparr>x = - 6 / 11, y = - 7 / 11, z = 6 / 11\<rparr>
        \<lparr>x = - 6 / sqrt 341, y = - 7 / sqrt 341, z = - 16 / sqrt 341\<rparr>
        (float_of_int exact_ops 20))
   = \<lparr>x = 14 / sqrt (27 / 11) / 27, y = 14 / sqrt (27 / 11) / 27,
      z = 14 / sqrt (27 / 11) / 27\<rparr>"
  using D_lower
  by (simp add: blinn_phong_shading_def light1_def Let_def exact_ops_simps vec3_sub_def
      vec3_length_squared_def vec3_scale_def vec3_dot_def clampf_def)

lemma diffuse_bounds:
  "8421 / 100 \<le> 14 / sqrt (27 / 11) / 27 * 255" "14 / sqrt (27 / 11) / 27 * 255 < 85"
proof -
  have p: "0 < sqrt (27 / 11)" by simp
  show "8421 / 100 \<le> 14 / sqrt (27 / 11) / 27 * 255"
    using D_upper p by (simp add: pos_le_divide_eq)
  show "14 / sqrt (27 / 11) / 27 * 255 < 85"
    using D_lower p by (simp add: pos_divide_less_eq)
qed

lemma poly_id:
  fixes u w :: real
  assumes "27 * (u * u) = 11" "341 * (w * w) = 1"
  shows "(- 5 / 11 * u + - 6 * w) * (- 5 / 11 * u + - 6 * w)
       + (- 4 / 11 * u + - 7 * w) * (- 4 / 11 * u + - 7 * w)
       + (16 / 11 * u + - 16 * w) * (16 / 11 * u + - 16 * w) = 2 - 36 * (u * w)"
proof -
  have "(- 5 / 11 * u + - 6 * w) * (- 5 / 11 * u + - 6 * w)
       + (- 4 / 11 * u + - 7 * w) * (- 4 / 11 * u + - 7 * w)
       + (16 / 11 * u + - 16 * w) * (16 / 11 * u + - 16 * w)
     = (27 * (u * u)) / 11 - 36 * (u * w) + 341 * (w * w)"
    by (simp add: algebra_simps)
  then show ?thesis by (simp only: assms)
qed

lemma half_vector_length_squared:
  fixes D s :: real
  assumes "D * D = 27 / 11" "s * s = 341" "0 < D" "0 < s"
  shows "vec3_length_squared exact_ops
           (vec3_add exact_ops
              (vec3_scale exact_ops \<lparr>x = - 5 / 11, y = - 4 / 11, z = 16 / 11\<rparr>
                 (fdiv exact_ops (float_of_int exact_ops 1) D))
              \<lparr>x = - 6 / s, y = - 7 / s, z = - 16 / s\<rparr>)
         = 2 - 36 * ((1 / D) * (1 / s))"
proof -
  have u: "27 * ((1 / D) * (1 / D)) = 11"
    using assms(1,3) by (simp add: field_simps)
  have w: "341 * ((1 / s) * (1 / s)) = 1"
    using assms(2,4) by (simp add: field_simps)
  have "vec3_length_squared exact_ops
           (vec3_add exact_ops
              (vec3_scale exact_ops \<lparr>x = - 5 / 11, y = - 4 / 11, z = 16 / 11\<rparr>
                 (fdiv exact_ops (float_of_int exact_ops 1) D))
              \<lparr>x = - 6 / s, y = - 7 / s, z = - 16 / s\<rparr>)
        = (- 5 / 11 * (1 / D) + - 6 * (1 / s)) * (- 5 / 11 * (1 / D) + - 6 * (1 / s))
       + (- 4 / 11 * (1 / D) + - 7 * (1 / s)) * (- 4 / 11 * (1 / D) + - 7 * (1 / s))
       + (16 / 11 * (1 / D) + - 16 * (1 / s)) * (16 / 11 * (1 / D) + - 16 * (1 / s))"
    by (simp add: vec3_length_squared_def vec3_add_def vec3_scale_def exact_ops_simps)
  also have "\<dots> = 2 - 36 * ((1 / D) * (1 / s))"
    using u w by (rule poly_id)
  finally show ?thesis .
qed


lemma NdotH_value:
  fixes D s :: real
  assumes "D * D = 27 / 11" "s * s = 341" "0 < D" "0 < s"
  shows "vec3_dot exact_ops \<lparr>x = - 6 / 11, y = - 7 / 11, z = 6 / 11\<rparr>
           (vec3_normalized exact_ops
              (vec3_add exact_ops
                 (vec3_scale exact_ops \<lparr>x = - 5 / 11, y = - 4 / 11, z = 16 / 11\<rparr>
                    (fdiv exact_ops (float_of_int exact_ops 1) D))
                 \<lparr>x = - 6 / s, y = - 7 / s, z = - 16 / s\<rparr>))
         = (14 / 11 * (1 / D) - 1 / s) / sqrt (2 - 36 * ((1 / D) * (1 / s)))"
proof (cases "sqrt (2 - 36 * ((1 / D) * (1 / s))) = 0")
  case True
  then show ?thesis
    unfolding vec3_normalized_def vec3_length_def Let_def half_vector_length_squared [OF assms]
    by (simp add: vec3_dot_def exact_ops_simps)
next
  case False
  with assms(3,4) show ?thesis
    unfolding vec3_normalized_def vec3_length_def Let_def half_vector_length_squared [OF assms]
    by (simp add: vec3_dot_def vec3_add_def vec3_scale_def exact_ops_simps field_simps)
qed

lemma NdotH_bound:
  fixes D s :: real
  assumes D: "156 / 100 \<le> D" "D \<le> 157 / 100" and s: "1846 / 100 \<le> s" "s \<le> 1847 / 100"
  shows "4 / 5 \<le> (14 / 11 * (1 / D) - 1 / s) / sqrt (2 - 36 * ((1 / D) * (1 / s)))"
proof -
  from D s have pos: "0 < D" "0 < s" by simp_all
  have hi: "D * s \<le> 157 / 100 * (1847 / 100)"
    using D s pos by (intro mult_mono) simp_all
  have lo: "156 / 100 * (1846 / 100) \<le> D * s"
    using D s by (intro mult_mono) simp_all
  from lo have dpos: "0 < D * s" by simp
  have q: "36 * ((1 / D) * (1 / s)) = 36 / (D * s)" by simp
  have q_lo: "124 / 100 \<le> 36 / (D * s)"
    using hi dpos by (simp add: pos_le_divide_eq)
  have q_hi: "36 / (D * s) \<le> 126 / 100"
    using lo dpos by (simp add: pos_divide_le_eq)
  have n1: "81 / 100 \<le> 14 / 11 * (1 / D)"
    using D pos by (simp add: pos_le_divide_eq)
  have n2: "1 / s \<le> 6 / 100"
    using s pos by (simp add: pos_divide_le_eq)
  from n1 n2 have n: "3 / 4 \<le> 14 / 11 * (1 / D) - 1 / s" by simp
  have H_hi: "sqrt (2 - 36 * ((1 / D) * (1 / s))) \<le> 9 / 10"
    unfolding q using q_lo q_hi by (intro real_le_lsqrt) (simp_all add: power2_eq_square)
  have H_pos: "0 < sqrt (2 - 36 * ((1 / D) * (1 / s)))"
    unfolding q using q_hi by simp
  have "4 / 5 * sqrt (2 - 36 * ((1 / D) * (1 / s))) \<le> 4 / 5 * (9 / 10)"
    using H_hi by simp
  also have "\<dots> \<le> 14 / 11 * (1 / D) - 1 / s"
    using n by simp
  finally show ?thesis
    using H_pos by (simp only: pos_le_divide_eq)
qed

lemma specular_x_formula:
  assumes "\<not> flt exact_ops (light_power pl) (float_of_int exact_ops 0)"
  shows "x (specular (blinn_phong_shading exact_ops pl p n v h)) =
     x (light_color pl) *
       ((clampf exact_ops
           (vec3_dot exact_ops n
              (vec3_normalized exact_ops
                 (vec3_add exact_ops
                    (vec3_scale exact_ops (vec3_sub exact_ops (light_position pl) p)
                       (fdiv exact_ops (float_of_int exact_ops 1)
                          (sqrt (vec3_length_squared exact_ops
                             (vec3_sub exact_ops (light_position pl) p)))))
                    v)))
           (float_of_int exact_ops 0) (float_of_int exact_ops 1)) powr h
        * light_power pl
        / vec3_length_squared exact_ops (vec3_sub exact_ops (light_position pl) p))"
  using assms
  by (simp add: blinn_phong_shading_def Let_def vec3_scale_def exact_ops_simps)

lemma specular_230_135:
  "(4 / 5) ^ 20 * (11 / 27)
   \<le> x (specular (blinn_phong_shading exact_ops (light1 exact_ops)
        \<lparr>x = - 6 / 11, y = - 7 / 11, z = - 16 / 11\<rparr> \<lparr>x = - 6 / 11, y = - 7 / 11, z = 6 / 11\<rparr>
        \<lparr>x = - 6 / sqrt 341, y = - 7 / sqrt 341, z = - 16 / sqrt 341\<rparr>
        (float_of_int exact_ops 20)))"
proof -
  have lp: "\<not> flt exact_ops (light_power (light1 exact_ops)) (float_of_int exact_ops 0)"
    by (simp add: light1_def exact_ops_simps)
  have L0: "vec3_sub exact_ops (light_position (light1 exact_ops))
              \<lparr>x = - 6 / 11, y = - 7 / 11, z = - 16 / 11\<rparr>
            = \<lparr>x = - 5 / 11, y = - 4 / 11, z = 16 / 11\<rparr>"
    by (simp add: vec3_sub_def light1_def exact_ops_simps)
  have d2: "vec3_length_squared exact_ops \<lparr>x = - 5 / 11, y = - 4 / 11, z = 16 / 11\<rparr> = 27 / 11"
    by (simp add: vec3_length_squared_def exact_ops_simps)
  have DD: "sqrt (27 / 11) * sqrt (27 / 11) = 27 / 11" by simp
  have ss: "sqrt 341 * sqrt 341 = 341" by simp
  have Dp: "0 < sqrt (27 / 11)" and sp: "0 < sqrt 341" by simp_all
  let ?NdotH = "vec3_dot exact_ops \<lparr>x = - 6 / 11, y = - 7 / 11, z = 6 / 11\<rparr>
           (vec3_normalized exact_ops
              (vec3_add exact_ops
                 (vec3_scale exact_ops \<lparr>x = - 5 / 11, y = - 4 / 11, z = 16 / 11\<rparr>
                    (fdiv exact_ops (float_of_int exact_ops 1) (sqrt (27 / 11))))
                 \<lparr>x = - 6 / sqrt 341, y = - 7 / sqrt 341, z = - 16 / sqrt 341\<rparr>))"
  let ?c = "clampf exact_ops ?NdotH (float_of_int exact_ops 0) (float_of_int exact_ops 1)"
  have "4 / 5 \<le> ?NdotH"
    unfolding NdotH_value [OF DD ss Dp sp]
    using D_lower D_upper s_lower s_upper by (rule NdotH_bound)
  then have c: "4 / 5 \<le> ?c"
    by (simp add: clampf_def exact_ops_simps)
  have "(4 / 5) powr 20 \<le> ?c powr 20"
    using c by (intro powr_mono2) simp_all
  then have p: "(4 / 5) ^ 20 \<le> ?c powr (float_of_int exact_ops 20)"
    by (simp add: exact_ops_simps)
  have "x (specular (blinn_phong_shading exact_ops (light1 exact_ops)
        \<lparr>x = - 6 / 11, y = - 7 / 11, z = - 16 / 11\<rparr> \<lparr>x = - 6 / 11, y = - 7 / 11, z = 6 / 11\<rparr>
        \<lparr>x = - 6 / sqrt 341, y = - 7 / sqrt 341, z = - 16 / sqrt 341\<rparr>
        (float_of_int exact_ops 20)))
      = x (light_color (light1 exact_ops)) *
          (?c powr (float_of_int exact_ops 20) * light_power (light1 exact_ops) / (27 / 11))"
    unfolding specular_x_formula [OF lp] L0 d2 ..
  also have "\<dots> = ?c powr (float_of_int exact_ops 20) * (11 / 27)"
    by (simp add: light1_def exact_ops_simps)
  finally show ?thesis using p by simp
qed

lemma code_channel:
  assumes "84 \<le> c * 255" "c * 255 < 85"
  shows "to_uint8 exact_ops (clampf exact_ops (fmul exact_ops c (float_of_int exact_ops 255))
           (float_of_int exact_ops 0) (float_of_int exact_ops 255)) = 84"
proof -
  from assms have "\<lfloor>c * 255\<rfloor> = 84" by (intro floor_unique) simp_all
  with assms show ?thesis by (simp add: clampf_def exact_ops_simps)
qed

lemma spec_channel:
  assumes "85 \<le> c * 255"
  shows "to_uint8 exact_ops (clampf exact_ops (fmul exact_ops c (float_of_int exact_ops 255))
           (float_of_int exact_ops 0) (float_of_int exact_ops 255)) \<noteq> 84"
proof -
  define r where "r = clampf exact_ops (fmul exact_ops c (float_of_int exact_ops 255))
           (float_of_int exact_ops 0) (float_of_int exact_ops 255)"
  from assms have r: "85 \<le> r" "r \<le> 255"
    by (simp_all add: r_def clampf_def exact_ops_simps)
  define k where "k = \<lfloor>r\<rfloor>"
  from r have k: "85 \<le> k" "k \<le> 255"
    by (simp_all add: k_def le_floor_iff floor_le_iff)
  have "(word_of_int k :: 8 word) \<noteq> 84"
  proof
    assume "(word_of_int k :: 8 word) = 84"
    then have "uint (word_of_int k :: 8 word) = uint (84 :: 8 word)" by simp
    then have "k mod 256 = 84" by (simp add: uint_word_of_int)
    with k show False by simp
  qed
  with r show ?thesis
    unfolding r_def [symmetric] by (simp add: exact_ops_simps k_def)
qed

text \<open>
  Claim C7 as it is stated, at the pixel \<open>(230, 135)\<close> in exact arithmetic. The ray hits
  the sphere at \<open>(-6/11, -7/11, -16/11)\<close>. Each diffuse channel is
  \<open>14 / (27 sqrt (27/11))\<close>, which scaled by 255 is about 84.4, and the code writes
  \<open>(84, 84, 84)\<close>. The specular channel scaled by 255 is at least 1.19 (about 6.7), so
  adding it gives a first byte of 85 or more.
\<close>

theorem specular_is_not_added:
  "main_pixel exact_ops 230 135 = (84, 84, 84) \<and> spec_pixel exact_ops 230 135 \<noteq> (84, 84, 84)"
proof
  have "84 \<le> 14 / sqrt (27 / 11) / 27 * 255"
    using diffuse_bounds(1) by simp
  from code_channel [OF this diffuse_bounds(2)]
  show "main_pixel exact_ops 230 135 = (84, 84, 84)"
    by (simp only: main_pixel_def Let_def ray_230_135 hit_230_135 option.case prod.case
          ray_t.select_convs diffuse_230_135 vec3_t.select_convs)
next
  let ?sp = "x (specular (blinn_phong_shading exact_ops (light1 exact_ops)
        \<lparr>x = - 6 / 11, y = - 7 / 11, z = - 16 / 11\<rparr> \<lparr>x = - 6 / 11, y = - 7 / 11, z = 6 / 11\<rparr>
        \<lparr>x = - 6 / sqrt 341, y = - 7 / sqrt 341, z = - 16 / sqrt 341\<rparr>
        (float_of_int exact_ops 20)))"
  have "(119 / 100 :: real) \<le> (4 / 5) ^ 20 * (11 / 27) * 255"
    by (simp add: power_divide)
  with specular_230_135 have "119 / 100 \<le> ?sp * 255" by simp
  with diffuse_bounds(1) have "85 \<le> (14 / sqrt (27 / 11) / 27 + ?sp) * 255"
    by (simp add: distrib_right)
  from spec_channel [OF this]
  show "spec_pixel exact_ops 230 135 \<noteq> (84, 84, 84)"
    by (simp only: spec_pixel_def Let_def ray_230_135 hit_230_135 option.case prod.case
          ray_t.select_convs lighting_t.select_convs diffuse_230_135 vec3_t.select_convs
          vec3_add_def exact_ops_simps(1) prod.inject) simp
qed

end
